theory Spec2Isabelle
  imports Main "HOL-Library.AList"
begin

chapter \<open>The DeepSpeed Windows patcher\<close>

text \<open>
  A model of \<open>builddeepspeed.py\<close>, the program that finds a Visual Studio toolchain
  and a CUDA toolkit, prepares a workspace, downloads and unpacks a DeepSpeed release,
  builds a wheel in a subprocess, archives it and installs it. The window of the
  program is reduced to what it shows (log lines, status, progress, dialogs) and to
  what the user has set in it. The first part gives the model, one definition per
  function or loop of the source; the second part states and proves its properties.
\<close>

section \<open>Strings and Windows paths\<close>

text \<open>
  Python strings are modelled as \<open>string\<close> (byte lists). The backslash cannot be
  written inside a string literal, so it is the character \<open>bsl\<close>; \<open>win\<close> writes a Windows
  path literal from its components, e.g. \<open>win [''C:'', ''Program Files'']\<close> is the source's
  \<^verbatim>\<open>"C:\\Program Files"\<close>.
\<close>

definition bsl :: char where
  "bsl = CHR 0x5C"

fun win :: "string list \<Rightarrow> string" where
  "win [] = []"
| "win [c] = c"
| "win (c # d # cs) = c @ bsl # win (d # cs)"

text \<open>\<open>sub in s\<close> of Python: \<open>sub\<close> occurs in \<open>s\<close> as a contiguous substring.\<close>

fun starts_with :: "string \<Rightarrow> string \<Rightarrow> bool" where
  "starts_with s [] = True"
| "starts_with [] (p # ps) = False"
| "starts_with (c # cs) (p # ps) = (c = p \<and> starts_with cs ps)"

fun contains :: "string \<Rightarrow> string \<Rightarrow> bool" where
  "contains [] sub = (sub = [])"
| "contains (c # cs) sub = (starts_with (c # cs) sub \<or> contains cs sub)"

section \<open>Toolchain discovery: \<open>find_vs_installation\<close>\<close>

text \<open>
  What the discovery reads from the machine: \<open>path_exists\<close> is \<open>os.path.exists\<close>;
  \<open>reg_install_dir key\<close> is the \<open>InstallDir\<close> value read with \<open>winreg.OpenKey\<close> and
  \<open>winreg.QueryValueEx\<close> under \<open>HKEY_LOCAL_MACHINE\<close>, \<open>None\<close> when either call raises
  \<open>WindowsError\<close>; \<open>path_parent s\<close> is \<open>str(Path(s).parent)\<close> and \<open>path_join\<close> is
  \<open>os.path.join\<close> of a path and further components.
\<close>

record platform =
  path_exists :: "string \<Rightarrow> bool"
  reg_install_dir :: "string \<Rightarrow> string option"
  path_parent :: "string \<Rightarrow> string"
  path_join :: "string \<Rightarrow> string list \<Rightarrow> string"

text \<open>A discovered toolchain: \<open>(vs_name, vs_path, vcvars_path)\<close>; the source's
  \<open>(None, None, None)\<close> is \<open>None\<close>.\<close>

type_synonym toolchain = "string \<times> string \<times> string"

definition default_vs_paths :: "(string \<times> string) list" where
  "default_vs_paths =
    [(''VS2019 BuildTools'',
        win [''C:'', ''Program Files (x86)'', ''Microsoft Visual Studio'', ''2019'', ''BuildTools'']),
     (''VS2019 Community'',
        win [''C:'', ''Program Files (x86)'', ''Microsoft Visual Studio'', ''2019'', ''Community'']),
     (''VS2022 BuildTools'',
        win [''C:'', ''Program Files'', ''Microsoft Visual Studio'', ''2022'', ''BuildTools'']),
     (''VS2022 Community'',
        win [''C:'', ''Program Files'', ''Microsoft Visual Studio'', ''2022'', ''Community''])]"

definition vs_reg_paths :: "(string \<times> string) list" where
  "vs_reg_paths =
    [(win [''SOFTWARE'', ''Microsoft'', ''VisualStudio'', ''Setup'', ''Community''], ''2022''),
     (win [''SOFTWARE'', ''Microsoft'', ''VisualStudio'', ''Setup'', ''BuildTools''], ''2022''),
     (win [''SOFTWARE'', ''WOW6432Node'', ''Microsoft'', ''VisualStudio'', ''Setup'', ''Community''], ''2019''),
     (win [''SOFTWARE'', ''WOW6432Node'', ''Microsoft'', ''VisualStudio'', ''Setup'', ''BuildTools''], ''2019'')]"

definition default_vcvars :: "platform \<Rightarrow> string \<Rightarrow> string" where
  "default_vcvars P vs_path =
     path_join P vs_path [win [''VC'', ''Auxiliary'', ''Build'', ''vcvars64.bat'']]"

definition registry_vcvars :: "platform \<Rightarrow> string \<Rightarrow> string" where
  "registry_vcvars P parent_path =
     path_join P parent_path [''VC'', ''Auxiliary'', ''Build'', ''vcvars64.bat'']"

definition registry_name :: "string \<Rightarrow> string \<Rightarrow> string" where
  "registry_name reg_path version =
     ''VS'' @ version @ '' '' @
       (if contains reg_path ''Community'' then ''Community'' else ''BuildTools'')"

text \<open>The first loop: over the default install roots, returning at the first whose
  script exists.\<close>

fun check_default_paths :: "platform \<Rightarrow> (string \<times> string) list \<Rightarrow> toolchain option" where
  "check_default_paths P [] = None"
| "check_default_paths P ((vs_name, vs_path) # rest) =
     (let vcvars_path = default_vcvars P vs_path
      in if path_exists P vcvars_path then Some (vs_name, vs_path, vcvars_path)
         else check_default_paths P rest)"

text \<open>The second loop: over the registry keys. A key that cannot be read
  (\<open>WindowsError\<close>) or whose value is empty is skipped.\<close>

fun check_registry :: "platform \<Rightarrow> (string \<times> string) list \<Rightarrow> toolchain option" where
  "check_registry P [] = None"
| "check_registry P ((reg_path, version) # rest) =
     (case reg_install_dir P reg_path of
        None \<Rightarrow> check_registry P rest
      | Some install_path \<Rightarrow>
          if install_path \<noteq> [] then
            (let parent_path = path_parent P install_path;
                 vcvars_path = registry_vcvars P parent_path
             in if path_exists P vcvars_path
                then Some (registry_name reg_path version, parent_path, vcvars_path)
                else check_registry P rest)
          else check_registry P rest)"

definition find_vs_installation :: "platform \<Rightarrow> toolchain option" where
  "find_vs_installation P =
     (case check_default_paths P default_vs_paths of
        Some r \<Rightarrow> Some r
      | None \<Rightarrow> check_registry P vs_reg_paths)"

text \<open>
  The candidates in their priority order, as the specification describes them: every
  well-known install root, then every registry key that can be read and holds a
  non-empty installation directory. This list is written from the specification's
  words and compared with the two loops above.
\<close>

definition default_candidates :: "platform \<Rightarrow> toolchain list" where
  "default_candidates P =
     map (\<lambda>(vs_name, vs_path). (vs_name, vs_path, default_vcvars P vs_path)) default_vs_paths"

definition registry_candidates :: "platform \<Rightarrow> toolchain list" where
  "registry_candidates P =
     concat (map (\<lambda>(reg_path, version).
        (case reg_install_dir P reg_path of
           None \<Rightarrow> []
         | Some install_path \<Rightarrow>
             if install_path = [] then []
             else [(registry_name reg_path version, path_parent P install_path,
                    registry_vcvars P (path_parent P install_path))])) vs_reg_paths)"

definition candidates :: "platform \<Rightarrow> toolchain list" where
  "candidates P = default_candidates P @ registry_candidates P"

definition script_exists :: "platform \<Rightarrow> toolchain \<Rightarrow> bool" where
  "script_exists P c = path_exists P (snd (snd c))"


section \<open>The file system\<close>

text \<open>
  The file system is a tree of named nodes, and a \<open>path\<close> is the list of names that
  leads from the root to a node, so the parent of the place \<open>p\<close> is \<open>butlast p\<close> and the
  entry \<open>name\<close> of the directory at \<open>p\<close> is at \<open>p @ [name]\<close>. The texts the program
  holds are not paths yet: what \<open>os.path.dirname\<close> cuts from a text and which place
  the system finds for a text are defined on the text itself, in the next section.
  Names are compared exactly. A directory keeps its entries in listing order;
  \<open>map_of\<close> reads an entry by name. Every exception the source can meet is a value of
  \<open>exc\<close>, and every file-system call returns \<open>Inl\<close> of the exception it raises or
  \<open>Inr\<close> of the tree it leaves.
\<close>

type_synonym path = "string list"

datatype node = File string | Dir "(string \<times> node) list"

type_synonym entries = "(string \<times> node) list"

datatype exc =
    FileNotFoundError
  | NotADirectoryError
  | FileExistsError
  | PermissionError
  | DirectoryNotEmpty
  | ShutilError
  | ReadError
  | RequestError string
  | CalledProcessError int
  | Exception string

fun lookup :: "node \<Rightarrow> path \<Rightarrow> node option" where
  "lookup n [] = Some n"
| "lookup (File c) (x # p) = None"
| "lookup (Dir es) (x # p) = (case map_of es x of None \<Rightarrow> None | Some c \<Rightarrow> lookup c p)"

definition os_path_exists :: "node \<Rightarrow> path \<Rightarrow> bool" where
  "os_path_exists t p = (lookup t p \<noteq> None)"

definition os_path_isdir :: "node \<Rightarrow> path \<Rightarrow> bool" where
  "os_path_isdir t p = (case lookup t p of Some (Dir es) \<Rightarrow> True | _ \<Rightarrow> False)"

text \<open>\<open>at p g t\<close> runs \<open>g\<close> on the node at path \<open>p\<close> of \<open>t\<close> and puts its result in that
  place; it fails when \<open>p\<close> does not lead to a node.\<close>

fun at :: "path \<Rightarrow> (node \<Rightarrow> exc + node) \<Rightarrow> node \<Rightarrow> exc + node" where
  "at [] g n = g n"
| "at (x # p) g (File c) = Inl NotADirectoryError"
| "at (x # p) g (Dir es) =
     (case map_of es x of
        None \<Rightarrow> Inl FileNotFoundError
      | Some c \<Rightarrow> (case at p g c of
                    Inl e \<Rightarrow> Inl e
                  | Inr c' \<Rightarrow> Inr (Dir (AList.update x c' es))))"

subsection \<open>\<open>os.makedirs\<close>, \<open>shutil.rmtree\<close>, \<open>os.rmdir\<close>, \<open>os.remove\<close>, \<open>os.listdir\<close>\<close>

fun fresh_dirs :: "path \<Rightarrow> node" where
  "fresh_dirs [] = Dir []"
| "fresh_dirs (x # p) = Dir [(x, fresh_dirs p)]"

text \<open>\<open>os.makedirs(p, exist_ok=...)\<close>: the missing directories of \<open>p\<close> are created; an
  existing leaf is an error unless \<open>exist_ok\<close> holds and the leaf is a directory.\<close>

fun makedirs :: "bool \<Rightarrow> path \<Rightarrow> node \<Rightarrow> exc + node" where
  "makedirs exist_ok [] (Dir es) = (if exist_ok then Inr (Dir es) else Inl FileExistsError)"
| "makedirs exist_ok [] (File c) = Inl FileExistsError"
| "makedirs exist_ok (x # p) (File c) = Inl NotADirectoryError"
| "makedirs exist_ok (x # p) (Dir es) =
     (case map_of es x of
        None \<Rightarrow> Inr (Dir (es @ [(x, fresh_dirs p)]))
      | Some c \<Rightarrow> (case makedirs exist_ok p c of
                    Inl e \<Rightarrow> Inl e
                  | Inr c' \<Rightarrow> Inr (Dir (AList.update x c' es))))"

definition del_tree :: "string \<Rightarrow> node \<Rightarrow> exc + node" where
  "del_tree x n =
     (case n of
        File c \<Rightarrow> Inl NotADirectoryError
      | Dir es \<Rightarrow>
          (case map_of es x of
             None \<Rightarrow> Inl FileNotFoundError
           | Some (File c) \<Rightarrow> Inl NotADirectoryError
           | Some (Dir ch) \<Rightarrow> Inr (Dir (AList.delete x es))))"

text \<open>\<open>shutil.rmtree(p)\<close>: \<open>p\<close> must be a directory; it goes with all below it. The
  root cannot be removed.\<close>

definition rmtree :: "path \<Rightarrow> node \<Rightarrow> exc + node" where
  "rmtree p t = (if p = [] then Inl PermissionError else at (butlast p) (del_tree (last p)) t)"

definition del_empty_dir :: "string \<Rightarrow> node \<Rightarrow> exc + node" where
  "del_empty_dir x n =
     (case n of
        File c \<Rightarrow> Inl NotADirectoryError
      | Dir es \<Rightarrow>
          (case map_of es x of
             None \<Rightarrow> Inl FileNotFoundError
           | Some (File c) \<Rightarrow> Inl NotADirectoryError
           | Some (Dir ch) \<Rightarrow>
               if ch = [] then Inr (Dir (AList.delete x es)) else Inl DirectoryNotEmpty))"

definition os_rmdir :: "path \<Rightarrow> node \<Rightarrow> exc + node" where
  "os_rmdir p t =
     (if p = [] then Inl PermissionError else at (butlast p) (del_empty_dir (last p)) t)"

definition del_file :: "string \<Rightarrow> node \<Rightarrow> exc + node" where
  "del_file x n =
     (case n of
        File c \<Rightarrow> Inl NotADirectoryError
      | Dir es \<Rightarrow>
          (case map_of es x of
             None \<Rightarrow> Inl FileNotFoundError
           | Some (File c) \<Rightarrow> Inr (Dir (AList.delete x es))
           | Some (Dir ch) \<Rightarrow> Inl PermissionError))"

definition os_remove :: "path \<Rightarrow> node \<Rightarrow> exc + node" where
  "os_remove p t = (if p = [] then Inl PermissionError else at (butlast p) (del_file (last p)) t)"

definition os_listdir :: "node \<Rightarrow> path \<Rightarrow> exc + string list" where
  "os_listdir t p =
     (case lookup t p of
        None \<Rightarrow> Inl FileNotFoundError
      | Some (File c) \<Rightarrow> Inl NotADirectoryError
      | Some (Dir es) \<Rightarrow> Inr (map fst es))"

subsection \<open>Writing a file, \<open>shutil.copy2\<close>, \<open>shutil.move\<close>\<close>

definition put_file :: "string \<Rightarrow> string \<Rightarrow> node \<Rightarrow> exc + node" where
  "put_file x c n =
     (case n of
        File c' \<Rightarrow> Inl NotADirectoryError
      | Dir es \<Rightarrow>
          (case map_of es x of
             Some (Dir ch) \<Rightarrow> Inl PermissionError
           | _ \<Rightarrow> Inr (Dir (AList.update x (File c) es))))"

text \<open>\<open>open(p, 'w')\<close>, the writes and the close: the directory of \<open>p\<close> must exist, and
  \<open>p\<close> must not be a directory; an existing file is overwritten.\<close>

definition write_file :: "path \<Rightarrow> string \<Rightarrow> node \<Rightarrow> exc + node" where
  "write_file p c t =
     (if p = [] then Inl PermissionError else at (butlast p) (put_file (last p) c) t)"

text \<open>\<open>shutil.copy2(src, dst)\<close>: a copy of the file \<open>src\<close>, under its own name when
  \<open>dst\<close> is a directory.\<close>

definition copy2 :: "path \<Rightarrow> path \<Rightarrow> node \<Rightarrow> exc + node" where
  "copy2 src dst t =
     (case lookup t src of
        None \<Rightarrow> Inl FileNotFoundError
      | Some (Dir ch) \<Rightarrow> Inl PermissionError
      | Some (File c) \<Rightarrow>
          if src = [] then Inl PermissionError
          else if os_path_isdir t dst then write_file (dst @ [last src]) c t
          else write_file dst c t)"

definition detach :: "string \<Rightarrow> node \<Rightarrow> exc + node" where
  "detach x n =
     (case n of
        File c \<Rightarrow> Inl NotADirectoryError
      | Dir es \<Rightarrow>
          (case map_of es x of
             None \<Rightarrow> Inl FileNotFoundError
           | Some c \<Rightarrow> Inr (Dir (AList.delete x es))))"

definition attach :: "string \<Rightarrow> node \<Rightarrow> node \<Rightarrow> exc + node" where
  "attach x m n =
     (case n of
        File c \<Rightarrow> Inl NotADirectoryError
      | Dir es \<Rightarrow> Inr (Dir (AList.update x m es)))"

text \<open>
  \<open>shutil.move(src, dst)\<close>. When \<open>dst\<close> is a directory the source goes into it under
  its own name (\<open>real_dst\<close>), and an entry of that name already there is \<open>shutil.Error\<close>.
  Otherwise the source is renamed to \<open>dst\<close>: a file replaces an existing file, a
  directory cannot replace anything.
\<close>

definition real_dst :: "node \<Rightarrow> path \<Rightarrow> path \<Rightarrow> path" where
  "real_dst t src dst = (if os_path_isdir t dst then dst @ [last src] else dst)"

definition rename :: "path \<Rightarrow> path \<Rightarrow> node \<Rightarrow> node \<Rightarrow> exc + node" where
  "rename src dst n t =
     (case (n, lookup t dst) of
        (Dir ch, Some m) \<Rightarrow> Inl FileExistsError
      | _ \<Rightarrow>
         (case at (butlast src) (detach (last src)) t of
            Inl e \<Rightarrow> Inl e
          | Inr t1 \<Rightarrow> at (butlast dst) (attach (last dst) n) t1))"

definition move :: "path \<Rightarrow> path \<Rightarrow> node \<Rightarrow> exc + node" where
  "move src dst t =
     (case lookup t src of
        None \<Rightarrow> Inl FileNotFoundError
      | Some n \<Rightarrow>
          if src = [] \<or> real_dst t src dst = [] then Inl PermissionError
          else if os_path_isdir t dst \<and> src = dst then Inr t
          else if os_path_isdir t dst \<and> os_path_exists t (real_dst t src dst)
            then Inl ShutilError
          else rename src (real_dst t src dst) n t)"

subsection \<open>\<open>Path.glob('*.whl')\<close> and \<open>shutil.unpack_archive\<close>\<close>

definition ends_with :: "string \<Rightarrow> string \<Rightarrow> bool" where
  "ends_with s suffix = starts_with (rev s) (rev suffix)"

text \<open>The entries of directory \<open>d\<close> whose name ends in \<open>.whl\<close>, in listing order; none
  when \<open>d\<close> is not a directory.\<close>

definition glob_whl :: "node \<Rightarrow> path \<Rightarrow> string list" where
  "glob_whl t d =
     (case lookup t d of
        Some (Dir es) \<Rightarrow> filter (\<lambda>name. ends_with name ''.whl'') (map fst es)
      | _ \<Rightarrow> [])"

text \<open>
  Unpacking writes the members of an archive into a directory: a file member replaces
  a file of its name, a directory member is created with its content or merged into
  the directory of its name. The archive is read as a tree of members.
\<close>

fun extract_entry :: "string \<times> node \<Rightarrow> entries \<Rightarrow> exc + entries"
  and extract_all :: "entries \<Rightarrow> entries \<Rightarrow> exc + entries" where
  "extract_entry (name, File c) es =
     (case map_of es name of
        Some (Dir ex) \<Rightarrow> Inl PermissionError
      | _ \<Rightarrow> Inr (AList.update name (File c) es))"
| "extract_entry (name, Dir ch) es =
     (case map_of es name of
        Some (File c) \<Rightarrow> Inl FileExistsError
      | None \<Rightarrow> Inr (es @ [(name, Dir ch)])
      | Some (Dir ex) \<Rightarrow>
          (case extract_all ch ex of
             Inl e \<Rightarrow> Inl e
           | Inr ex' \<Rightarrow> Inr (AList.update name (Dir ex') es)))"
| "extract_all [] es = Inr es"
| "extract_all (e # rest) es =
     (case extract_entry e es of Inl x \<Rightarrow> Inl x | Inr es' \<Rightarrow> extract_all rest es')"

definition extract_into :: "entries \<Rightarrow> node \<Rightarrow> exc + node" where
  "extract_into members n =
     (case n of
        File c \<Rightarrow> Inl NotADirectoryError
      | Dir es \<Rightarrow> (case extract_all members es of Inl e \<Rightarrow> Inl e | Inr es' \<Rightarrow> Inr (Dir es')))"

text \<open>\<open>shutil.unpack_archive(zip_path, dst)\<close>; \<open>unzip\<close> reads the bytes of a zip file
  as its top-level members, \<open>None\<close> when they are not a zip archive.\<close>

definition unpack_archive ::
  "(string \<Rightarrow> entries option) \<Rightarrow> path \<Rightarrow> path \<Rightarrow> node \<Rightarrow> exc + node" where
  "unpack_archive unzip zip_path dst t =
     (case lookup t zip_path of
        Some (File body) \<Rightarrow>
          (case unzip body of
             None \<Rightarrow> Inl ReadError
           | Some members \<Rightarrow>
               if members = [] then Inr t
               else (case makedirs True dst t of
                       Inl e \<Rightarrow> Inl e
                     | Inr t1 \<Rightarrow> at dst (extract_into members) t1))
      | _ \<Rightarrow> Inl ReadError)"

section \<open>The text of a path\<close>

text \<open>
  The installation directory is a line of text that the user may edit freely, and
  the program hands it to \<open>os.path\<close> and to the file system as it stands. This
  section follows \<open>ntpath\<close>: the backslash and \<open>/\<close> both separate, a letter and a
  colon in front are the drive. Network paths (a text that starts with two separators) are
  left out.
\<close>

definition is_sep :: "char \<Rightarrow> bool" where
  "is_sep c = (c = bsl \<or> c = CHR ''/'')"

text \<open>\<open>os.path.splitdrive\<close>: the drive is cut off when \<open>p[1:2] == ':'\<close>.\<close>

definition splitdrive :: "string \<Rightarrow> string \<times> string" where
  "splitdrive p = (if take 1 (drop 1 p) = '':'' then (take 2 p, drop 2 p) else ([], p))"

text \<open>\<open>s.rstrip(seps)\<close>.\<close>

definition rstrip_seps :: "string \<Rightarrow> string" where
  "rstrip_seps s = rev (dropWhile is_sep (rev s))"

text \<open>
  \<open>os.path.split\<close>: behind the drive, the tail is what follows the last separator,
  and the head is what precedes the tail, without its trailing separators unless it
  has nothing else. A text that ends in a separator has the empty tail, and its head
  is the whole text without that separator.
\<close>

definition os_path_split :: "string \<Rightarrow> string \<times> string" where
  "os_path_split p =
     (case splitdrive p of
        (d, r) \<Rightarrow>
          (let tail = rev (takeWhile (\<lambda>c. \<not> is_sep c) (rev r));
               head = rev (dropWhile (\<lambda>c. \<not> is_sep c) (rev r))
           in (d @ (if rstrip_seps head = [] then head else rstrip_seps head), tail)))"

definition os_path_dirname :: "string \<Rightarrow> string" where
  "os_path_dirname p = fst (os_path_split p)"

definition os_path_basename :: "string \<Rightarrow> string" where
  "os_path_basename p = snd (os_path_split p)"

text \<open>\<open>os.path.join(a, b)\<close> for a second part \<open>b\<close> without drive or leading separator, as
  all second parts in the program are: a separator is put between the two unless
  \<open>a\<close>, behind its drive, is empty or ends in one.\<close>

definition os_path_join :: "string \<Rightarrow> string \<Rightarrow> string" where
  "os_path_join a b =
     (case splitdrive a of
        (d, r) \<Rightarrow> if r \<noteq> [] \<and> \<not> is_sep (last r) then a @ [bsl] @ b else a @ b)"

text \<open>
  The place the system finds for a text. The text behind the drive is cut at its
  separators; an empty piece and \<open>.\<close> stay where they are, \<open>..\<close> goes to the parent,
  any other piece goes to the entry of that name. The walk starts in the drive, which
  is an entry of the root, or in the root itself for a text without drive (the root
  stands for the current directory as well).
\<close>

fun pieces :: "string \<Rightarrow> string list" where
  "pieces [] = [[]]"
| "pieces (c # cs) =
     (if is_sep c then [] # pieces cs
      else (case pieces cs of [] \<Rightarrow> [[c]] | w # ws \<Rightarrow> (c # w) # ws))"

definition walk :: "path \<Rightarrow> string \<Rightarrow> path" where
  "walk p c = (if c = [] \<or> c = ''.'' then p else if c = ''..'' then butlast p else p @ [c])"

definition locate :: "path \<Rightarrow> string \<Rightarrow> path" where
  "locate p s = foldl walk p (pieces s)"

definition resolve :: "string \<Rightarrow> path" where
  "resolve s = (case splitdrive s of (d, r) \<Rightarrow> locate (if d = [] then [] else [d]) r)"


section \<open>The patcher: configuration, surroundings and state\<close>

text \<open>
  \<open>config\<close> holds what the user has set in the window: the version, the toolkit
  version, the text of the installation directory and the check boxes of
  \<open>build_options\<close>. \<open>env\<close>
  holds what the patcher reads from outside itself during a run: the machine probed by
  the discovery, the interpreter, the answers to its two questions, the download, the
  zip decoder, the build subprocess (its output lines, its return code and the tree it
  leaves), \<open>pip\<close>, and the installed packages. \<open>state\<close> is what a run changes: the tree
  of files, the lines given to \<open>log\<close> (without their time stamps), the progress bar,
  the status line and the dialogs shown.
\<close>

record config =
  version_var :: string
  cuda_var :: string
  install_dir_var :: string
  build_options :: "(string \<times> bool) list"

datatype torch_status = TorchMissing | TorchImported string bool string | TorchFails exc

datatype dist_status = DistFound | DistNotFound | DistFails exc

record env =
  machine :: platform
  python_version :: string
  torch_version :: string
  sys_executable :: string
  version_info_major :: nat
  version_info_minor :: nat
  confirm_build :: bool
  view_cuda_guide :: bool
  http_get :: "string \<Rightarrow> exc + string"
  unzip :: "string \<Rightarrow> entries option"
  build_proc :: "node \<Rightarrow> string list \<times> int \<times> node"
  run_pip :: "string list \<Rightarrow> int"
  import_torch :: torch_status
  distribution :: "string \<Rightarrow> dist_status"
  cuda_info :: "string \<Rightarrow> string"

datatype dialog =
    ShowError string string
  | ShowInfo string string
  | AskYesNo string string
  | InfoWindow string string

record state =
  fs :: node
  log_lines :: "string list"
  progress_var :: nat
  status_var :: string
  dialogs :: "dialog list"

definition nl :: char where
  "nl = CHR 0x0A"

definition dq :: char where
  "dq = CHR 0x22"

definition sq :: char where
  "sq = CHR 0x27"

text \<open>The marks of the log lines, in UTF-8: check mark, cross mark, warning sign.\<close>

definition tick :: string where
  "tick = [CHR 0xE2, CHR 0x9C, CHR 0x93]"

definition cross :: string where
  "cross = [CHR 0xE2, CHR 0x9D, CHR 0x8C]"

definition warn :: string where
  "warn = [CHR 0xE2, CHR 0x9A, CHR 0xA0]"

definition digit_char :: "nat \<Rightarrow> char" where
  "digit_char d = (''0123456789'' ! d)"

function show_nat :: "nat \<Rightarrow> string" where
  "show_nat n = (if n < 10 then [digit_char n] else show_nat (n div 10) @ [digit_char (n mod 10)])"
  by pat_completeness auto
termination
  by (relation "measure (\<lambda>n. n)") auto

declare show_nat.simps [simp del]

definition show_int :: "int \<Rightarrow> string" where
  "show_int i = (if i < 0 then ''-'' @ show_nat (nat (- i)) else show_nat (nat i))"

text \<open>\<open>str(e)\<close> of an exception. The messages the program itself gives to \<open>Exception\<close>
  are exact; those of the operating system and of the libraries are abridged.\<close>

fun exc_str :: "exc \<Rightarrow> string" where
  "exc_str FileNotFoundError = ''The system cannot find the path specified''"
| "exc_str NotADirectoryError = ''The directory name is invalid''"
| "exc_str FileExistsError = ''Cannot create a file when that file already exists''"
| "exc_str PermissionError = ''Access is denied''"
| "exc_str DirectoryNotEmpty = ''The directory is not empty''"
| "exc_str ShutilError = ''Destination path already exists''"
| "exc_str ReadError = ''not a zip file''"
| "exc_str (RequestError m) = m"
| "exc_str (CalledProcessError rc) = ''Command returned non-zero exit status '' @ show_int rc"
| "exc_str (Exception m) = m"

definition is_space :: "char \<Rightarrow> bool" where
  "is_space c = (c \<in> set [CHR '' '', CHR 0x09, CHR 0x0A, CHR 0x0B, CHR 0x0C, CHR 0x0D])"

definition strip :: "string \<Rightarrow> string" where
  "strip s = rev (dropWhile is_space (rev (dropWhile is_space s)))"

definition log :: "string \<Rightarrow> state \<Rightarrow> state" where
  "log message st = st \<lparr> log_lines := log_lines st @ [message] \<rparr>"

definition show_dialog :: "dialog \<Rightarrow> state \<Rightarrow> state" where
  "show_dialog d st = st \<lparr> dialogs := dialogs st @ [d] \<rparr>"

definition set_progress :: "nat \<Rightarrow> state \<Rightarrow> state" where
  "set_progress n st = st \<lparr> progress_var := n \<rparr>"

definition set_status :: "string \<Rightarrow> state \<Rightarrow> state" where
  "set_status s st = st \<lparr> status_var := s \<rparr>"

text \<open>
  The body of a \<open>try\<close> block is a list of steps. A step returns the next state, or the
  exception it raises together with the state at that moment, since what was done
  before the exception stays done.
\<close>

type_synonym step = "state \<Rightarrow> (exc \<times> state) + state"

definition pure_step :: "(state \<Rightarrow> state) \<Rightarrow> step" where
  "pure_step f st = Inr (f st)"

definition fs_step :: "(node \<Rightarrow> exc + node) \<Rightarrow> step" where
  "fs_step f st = (case f (fs st) of Inl e \<Rightarrow> Inl (e, st) | Inr t \<Rightarrow> Inr (st \<lparr> fs := t \<rparr>))"

fun run_steps :: "step list \<Rightarrow> step" where
  "run_steps [] st = Inr st"
| "run_steps (f # rest) st = (case f st of Inl x \<Rightarrow> Inl x | Inr st' \<Rightarrow> run_steps rest st')"

text \<open>The exception a run of steps ended with, if any.\<close>

definition raised :: "(exc \<times> state) + state \<Rightarrow> exc option" where
  "raised r = (case r of Inl (e, st) \<Rightarrow> Some e | Inr st \<Rightarrow> None)"

text \<open>The state a run of steps ended in, with or without an exception.\<close>

definition outcome_state :: "(exc \<times> state) + state \<Rightarrow> state" where
  "outcome_state r = (case r of Inl (e, st) \<Rightarrow> st | Inr st \<Rightarrow> st)"

section \<open>The workspace\<close>

text \<open>
  Every file-system call of the program gets the text of \<open>install_dir_var\<close> or an
  \<open>os.path.join\<close> of it with a name. \<open>workspace\<close> is the place that text leads to, and
  the join of the text with a name is the entry of that name there
  (\<open>workspace cfg @ [name]\<close>), whether the text ends in a separator or not.
\<close>

definition workspace :: "config \<Rightarrow> path" where
  "workspace cfg = resolve (install_dir_var cfg)"

section \<open>\<open>run_build_process\<close>\<close>

definition cuda_path :: "config \<Rightarrow> string" where
  "cuda_path cfg =
     win [''C:'', ''Program Files'', ''NVIDIA GPU Computing Toolkit'', ''CUDA'', ''v'' @ cuda_var cfg]"

definition build_script_path :: "config \<Rightarrow> path" where
  "build_script_path cfg = workspace cfg @ [''run_build.bat'']"

text \<open>The lines written to \<open>run_build.bat\<close>, each without its final newline.\<close>

definition build_script_lines :: "env \<Rightarrow> config \<Rightarrow> string \<Rightarrow> string list" where
  "build_script_lines E cfg vcvars_path =
     [''@echo off'',
      ''chcp 65001'',
      ''set PYTHONUTF8=1'',
      ''set PYTHONIOENCODING=utf-8'',
      ''call '' @ [dq] @ vcvars_path @ [dq],
      ''set DS_BUILD_STRING=nogit'',
      ''set CUDA_PATH='' @ cuda_path cfg,
      ''set CUDA_HOME=%CUDA_PATH%'',
      ''set DISTUTILS_USE_SDK=1'',
      ''set DS_BUILD_AIO=0'',
      ''set DS_BUILD_CUTLASS_OPS=0'',
      ''set DS_BUILD_EVOFORMER_ATTN=0'',
      ''set DS_BUILD_FP_QUANTIZER=0'',
      ''set DS_BUILD_RAGGED_DEVICE_OPS=0'',
      ''set DS_BUILD_SPARSE_ATTN=0'',
      ''set DS_BUILD_TRANSFORMER_INFERENCE=0'',
      ''echo ============ Environment Variables ============'',
      ''echo CUDA_PATH=%CUDA_PATH%'',
      ''echo CUDA_HOME=%CUDA_HOME%'',
      ''echo PATH=%PATH%'',
      ''echo INCLUDE=%INCLUDE%'',
      ''echo Platform: %VSCMD_ARG_TGT_ARCH%'',
      ''echo ============================================'',
      ''cd /d '' @ [dq] @ install_dir_var cfg @ [dq],
      [dq] @ sys_executable E @ [dq] @ '' setup.py bdist_wheel'',
      ''if errorlevel 1 exit /b 1'']"

definition build_script_text :: "env \<Rightarrow> config \<Rightarrow> string \<Rightarrow> string" where
  "build_script_text E cfg vcvars_path =
     concat (map (\<lambda>l. l @ [nl]) (build_script_lines E cfg vcvars_path))"

text \<open>The subprocess runs; every line it prints is logged, stripped; a return code
  other than zero raises \<open>Exception("Build failed")\<close>.\<close>

definition run_subprocess :: "env \<Rightarrow> step" where
  "run_subprocess E st =
     (case build_proc E (fs st) of
        (output, returncode, t) \<Rightarrow>
          (let st' = foldl (\<lambda>s l. log (strip l) s) (st \<lparr> fs := t \<rparr>) output
           in if returncode \<noteq> 0 then Inl (Exception ''Build failed'', st') else Inr st'))"

text \<open>\<open>try: os.remove(build_script) except: pass\<close>.\<close>

definition remove_quietly :: "path \<Rightarrow> state \<Rightarrow> state" where
  "remove_quietly p st = (case os_remove p (fs st) of Inl e \<Rightarrow> st | Inr t \<Rightarrow> st \<lparr> fs := t \<rparr>)"

definition run_build_body :: "env \<Rightarrow> config \<Rightarrow> step" where
  "run_build_body E cfg st =
     (case find_vs_installation (machine E) of
        None \<Rightarrow> Inl (Exception ''Visual Studio 64-bit build tools not found'', st)
      | Some (vs_name, vs_path, vcvars_path) \<Rightarrow>
          if vcvars_path = [] then
            Inl (Exception ''Visual Studio 64-bit build tools not found'', st)
          else
            run_steps
              [pure_step (log (''Using Visual Studio 64-bit tools from: '' @ vs_path)),
               fs_step (write_file (build_script_path cfg) (build_script_text E cfg vcvars_path)),
               pure_step (log ''Starting build with 64-bit tools...''),
               run_subprocess E,
               pure_step (remove_quietly (build_script_path cfg))] st)"

definition run_build_process :: "env \<Rightarrow> config \<Rightarrow> state \<Rightarrow> bool \<times> state" where
  "run_build_process E cfg st =
     (case run_build_body E cfg st of
        Inl (e, st') \<Rightarrow> (False, log (''Build process error: '' @ exc_str e) st')
      | Inr st' \<Rightarrow> (True, st'))"

section \<open>\<open>manage_build_directory\<close> and \<open>archive_wheel\<close>\<close>

text \<open>
  The archive directory is \<open>deepspeed_wheels\<close> in the directory that
  \<open>os.path.dirname\<close> cuts from the text of the installation directory.
\<close>

definition archive_dir :: "config \<Rightarrow> path" where
  "archive_dir cfg = resolve (os_path_dirname (install_dir_var cfg)) @ [''deepspeed_wheels'']"

definition clean_build_dir :: "config \<Rightarrow> step" where
  "clean_build_dir cfg st =
     (if os_path_exists (fs st) (workspace cfg) then
        run_steps
          [pure_step (log ''Cleaning existing build directory...''),
           fs_step (rmtree (workspace cfg))] st
      else Inr st)"

definition manage_build_body :: "config \<Rightarrow> step" where
  "manage_build_body cfg =
     run_steps
       [fs_step (makedirs True (archive_dir cfg)),
        clean_build_dir cfg,
        fs_step (makedirs False (workspace cfg))]"

definition manage_build_directory :: "config \<Rightarrow> state \<Rightarrow> bool \<times> state" where
  "manage_build_directory cfg st =
     (case manage_build_body cfg st of
        Inl (e, st') \<Rightarrow> (False, log (''Error managing build directory: '' @ exc_str e) st')
      | Inr st' \<Rightarrow> (True, st'))"

definition wheel_dir :: "config \<Rightarrow> path" where
  "wheel_dir cfg = workspace cfg @ [''dist'']"

definition archive_subdir :: "env \<Rightarrow> config \<Rightarrow> string" where
  "archive_subdir E cfg =
     ''deepspeed_'' @ version_var cfg @ ''_cuda'' @ cuda_var cfg @ ''_py'' @
       show_nat (version_info_major E) @ show_nat (version_info_minor E)"

definition archive_path :: "env \<Rightarrow> config \<Rightarrow> path" where
  "archive_path E cfg =
     resolve (os_path_dirname (install_dir_var cfg)) @
       [''deepspeed_wheels'', archive_subdir E cfg]"

text \<open>The same directory as the text that \<open>archive_wheel\<close> writes to the log.\<close>

definition archive_path_text :: "env \<Rightarrow> config \<Rightarrow> string" where
  "archive_path_text E cfg =
     os_path_join (os_path_join (os_path_dirname (install_dir_var cfg)) ''deepspeed_wheels'')
       (archive_subdir E cfg)"

definition archive_wheel :: "env \<Rightarrow> config \<Rightarrow> state \<Rightarrow> bool \<times> state" where
  "archive_wheel E cfg st =
     (case glob_whl (fs st) (wheel_dir cfg) of
        [] \<Rightarrow> (False, st)
      | wheel_file # others \<Rightarrow>
          (case run_steps
                  [fs_step (makedirs True (archive_path E cfg)),
                   fs_step (copy2 (wheel_dir cfg @ [wheel_file]) (archive_path E cfg)),
                   pure_step (log (''Wheel file archived to: '' @ archive_path_text E cfg))] st of
             Inl (e, st') \<Rightarrow> (False, log (''Error archiving wheel: '' @ exc_str e) st')
           | Inr st' \<Rightarrow> (True, st')))"

section \<open>Download and extraction\<close>

definition download_url :: "config \<Rightarrow> string" where
  "download_url cfg =
     ''https://github.com/microsoft/DeepSpeed/archive/v'' @ version_var cfg @ ''.zip''"

definition zip_path :: "config \<Rightarrow> path" where
  "zip_path cfg = workspace cfg @ [''deepspeed.zip'']"

definition extracted_dir :: "config \<Rightarrow> path" where
  "extracted_dir cfg = workspace cfg @ [''DeepSpeed-'' @ version_var cfg]"

text \<open>The request and \<open>raise_for_status\<close>, then the body written to \<open>deepspeed.zip\<close>.\<close>

definition download :: "env \<Rightarrow> config \<Rightarrow> step" where
  "download E cfg st =
     (case http_get E (download_url cfg) of
        Inl e \<Rightarrow> Inl (e, st)
      | Inr body \<Rightarrow>
          run_steps
            [fs_step (makedirs True (workspace cfg)),
             fs_step (write_file (zip_path cfg) body)] st)"

text \<open>The loop \<open>for item in os.listdir(extracted_dir): shutil.move(...)\<close>.\<close>

fun move_items :: "path \<Rightarrow> path \<Rightarrow> string list \<Rightarrow> step" where
  "move_items src_dir dst_dir [] st = Inr st"
| "move_items src_dir dst_dir (item # items) st =
     (case fs_step (move (src_dir @ [item]) (dst_dir @ [item])) st of
        Inl x \<Rightarrow> Inl x
      | Inr st' \<Rightarrow> move_items src_dir dst_dir items st')"

definition move_up :: "config \<Rightarrow> step" where
  "move_up cfg st =
     (case os_listdir (fs st) (extracted_dir cfg) of
        Inl e \<Rightarrow> Inl (e, st)
      | Inr items \<Rightarrow> move_items (extracted_dir cfg) (workspace cfg) items st)"

text \<open>The lines both entry points share, from the download to the removal of the
  archive file.\<close>

definition fetch_source :: "env \<Rightarrow> config \<Rightarrow> step" where
  "fetch_source E cfg =
     run_steps
       [pure_step (log (''Downloading DeepSpeed '' @ version_var cfg @ ''...'')),
        pure_step (log (''Download URL: '' @ download_url cfg)),
        download E cfg,
        pure_step (set_progress 30),
        pure_step (log ''Extracting files...''),
        fs_step (unpack_archive (unzip E) (zip_path cfg) (workspace cfg)),
        move_up cfg,
        fs_step (os_rmdir (extracted_dir cfg)),
        fs_step (os_remove (zip_path cfg)),
        pure_step (set_progress 50)]"

section \<open>The entry points \<open>build_only\<close> and \<open>start_installation\<close>\<close>

definition show_cuda_setup_info :: "env \<Rightarrow> config \<Rightarrow> state \<Rightarrow> state" where
  "show_cuda_setup_info E cfg st =
     show_dialog (InfoWindow ''CUDA Setup Instructions'' (cuda_info E (cuda_var cfg)))
       (log (cuda_info E (cuda_var cfg)) st)"

definition confirm_text :: "env \<Rightarrow> config \<Rightarrow> string" where
  "confirm_text E cfg =
     ''Building DeepSpeed '' @ version_var cfg @ '' with:'' @ [nl, nl] @
     ''Python: '' @ python_version E @ [nl] @
     ''PyTorch: '' @ torch_version E @ [nl] @
     ''CUDA: '' @ cuda_var cfg @ [nl, nl] @
     ''Continue?''"

definition run_build_step :: "env \<Rightarrow> config \<Rightarrow> step" where
  "run_build_step E cfg st =
     (case run_build_process E cfg st of
        (True, st') \<Rightarrow> Inr st'
      | (False, st') \<Rightarrow> Inl (Exception ''Build failed'', st'))"

definition prepare_step :: "config \<Rightarrow> step" where
  "prepare_step cfg st =
     (case manage_build_directory cfg st of
        (True, st') \<Rightarrow> Inr st'
      | (False, st') \<Rightarrow> Inl (Exception ''Failed to prepare build directory'', st'))"

definition archive_step :: "env \<Rightarrow> config \<Rightarrow> step" where
  "archive_step E cfg st =
     (case archive_wheel E cfg st of
        (True, st') \<Rightarrow> Inr st'
      | (False, st') \<Rightarrow> Inr (log (warn @ '' Warning: Could not archive wheel file'') st'))"

definition build_success :: "env \<Rightarrow> config \<Rightarrow> state \<Rightarrow> state" where
  "build_success E cfg st =
     (let st1 = show_dialog (AskYesNo ''Build Success''
                  ''Build completed successfully! Would you like to view the CUDA_HOME setup instructions?'') st
      in if view_cuda_guide E then show_cuda_setup_info E cfg st1
         else show_dialog (ShowInfo ''Success'' ''DeepSpeed has been successfully built!'') st1)"

definition build_only_body :: "env \<Rightarrow> config \<Rightarrow> step" where
  "build_only_body E cfg st =
     (let st1 = show_dialog (AskYesNo ''Confirm Build Environment'' (confirm_text E cfg))
                 (log (''Building DeepSpeed Version: '' @ version_var cfg @ [nl])
                 (log (''Selected CUDA Version: '' @ cuda_var cfg)
                 (log (''PyTorch Version: '' @ torch_version E)
                 (log (''Python Version: '' @ python_version E)
                 (log (nl # ''Build Environment:'') st)))))
      in if \<not> confirm_build E then Inr st1
         else run_steps
                [pure_step (set_progress 0),
                 pure_step (set_status ''Starting build...''),
                 prepare_step cfg,
                 fetch_source E cfg,
                 run_build_step E cfg,
                 archive_step E cfg,
                 pure_step (set_progress 100),
                 pure_step (set_status ''Build complete!''),
                 pure_step (log (tick @ '' Build completed successfully!'')),
                 pure_step (build_success E cfg)] st1)"

definition build_only :: "env \<Rightarrow> config \<Rightarrow> state \<Rightarrow> state" where
  "build_only E cfg st =
     (if version_var cfg = [] then
        show_dialog (ShowError ''Error'' ''Please select a DeepSpeed version'') st
      else
        (case build_only_body E cfg st of
           Inr st' \<Rightarrow> st'
         | Inl (e, st') \<Rightarrow>
             show_dialog (ShowError ''Error'' (''Build failed: '' @ exc_str e))
               (set_status ''Build failed!''
                 (log (''Error during build: '' @ exc_str e) st'))))"

text \<open>The installation at the end of \<open>start_installation\<close>: the wheel is looked for
  again, its absence is an exception, and \<open>pip\<close> installs the first one found; the
  text of its path is written as the join of the directory text, \<open>dist\<close> and the name.\<close>

definition install_built_wheel :: "env \<Rightarrow> config \<Rightarrow> step" where
  "install_built_wheel E cfg st =
     (case glob_whl (fs st) (wheel_dir cfg) of
        [] \<Rightarrow> Inl (Exception ''No wheel file found after build'', st)
      | wheel_file # others \<Rightarrow>
          (let rc = run_pip E [''install'',
                              os_path_join (os_path_join (install_dir_var cfg) ''dist'') wheel_file,
                              ''--force-reinstall'']
           in if rc \<noteq> 0 then Inl (CalledProcessError rc, st) else Inr st))"

definition install_success :: "env \<Rightarrow> config \<Rightarrow> state \<Rightarrow> state" where
  "install_success E cfg st =
     (let st1 = show_dialog (AskYesNo ''Installation Success''
                  ''Installation completed successfully! Would you like to view the CUDA setup instructions?'') st
      in if view_cuda_guide E then show_cuda_setup_info E cfg st1
         else show_dialog (ShowInfo ''Success'' ''DeepSpeed has been successfully installed!'') st1)"

definition start_installation_body :: "env \<Rightarrow> config \<Rightarrow> step" where
  "start_installation_body E cfg st =
     (let st1 = show_dialog (AskYesNo ''Confirm Build Environment'' (confirm_text E cfg))
                 (log (''Building DeepSpeed Version: '' @ version_var cfg)
                 (log (''Selected CUDA Version: '' @ cuda_var cfg)
                 (log (''PyTorch Version: '' @ torch_version E)
                 (log (''Python Version: '' @ python_version E)
                 (log (nl # ''Build Environment:'') st)))))
      in if \<not> confirm_build E then Inr st1
         else run_steps
                [pure_step (set_progress 0),
                 pure_step (set_status ''Starting installation...''),
                 prepare_step cfg,
                 fetch_source E cfg,
                 run_build_step E cfg,
                 archive_step E cfg,
                 pure_step (set_progress 90),
                 pure_step (log ''Installing wheel...''),
                 install_built_wheel E cfg,
                 pure_step (set_progress 100),
                 pure_step (set_status ''Installation complete!''),
                 pure_step (log (tick @ '' Installation completed successfully!'')),
                 pure_step (install_success E cfg)] st1)"

definition start_installation :: "env \<Rightarrow> config \<Rightarrow> state \<Rightarrow> state" where
  "start_installation E cfg st =
     (if version_var cfg = [] then
        show_dialog (ShowError ''Error'' ''Please select a DeepSpeed version'') st
      else
        (case start_installation_body E cfg st of
           Inr st' \<Rightarrow> st'
         | Inl (e, st') \<Rightarrow>
             show_dialog (ShowError ''Error'' (''Installation failed: '' @ exc_str e))
               (set_status ''Installation failed!''
                 (log (''Error during installation: '' @ exc_str e) st'))))"

section \<open>\<open>check_prerequisites\<close>\<close>

text \<open>
  The source keeps one flag, \<open>prerequisites_met\<close>, which each failed check sets to
  \<open>False\<close>, and writes its findings to the log. Each part below takes the flag and the
  state and returns both.
\<close>

type_synonym tally = "bool \<times> state"

definition found :: "string \<Rightarrow> tally \<Rightarrow> tally" where
  "found message c = (fst c, log message (snd c))"

definition failed :: "tally \<Rightarrow> tally" where
  "failed c = (False, snd c)"

definition check_vs :: "env \<Rightarrow> tally \<Rightarrow> tally" where
  "check_vs E c =
     (let c1 = found (nl # ''Checking Visual Studio installation:'') c
      in case find_vs_installation (machine E) of
           Some (vs_name, vs_path, vcvars_path) \<Rightarrow>
             if vcvars_path \<noteq> [] then
               found (tick @ '' Found '' @ vs_name @ '' at: '' @ vs_path) c1
             else
               failed
                 (found (''During installation, select '' @ [sq] @ ''Desktop development with C++'' @ [sq])
                 (found ''https://visualstudio.microsoft.com/vs/community/''
                 (found ''Please install Visual Studio Community Edition from:''
                 (found (cross @ '' No compatible Visual Studio installation found'') c1))))
         | None \<Rightarrow>
             failed
               (found (''During installation, select '' @ [sq] @ ''Desktop development with C++'' @ [sq])
               (found ''https://visualstudio.microsoft.com/vs/community/''
               (found ''Please install Visual Studio Community Edition from:''
               (found (cross @ '' No compatible Visual Studio installation found'') c1)))))"

definition nvcc_path :: "env \<Rightarrow> config \<Rightarrow> string" where
  "nvcc_path E cfg = path_join (machine E) (cuda_path cfg) [''bin'', ''nvcc.exe'']"

definition check_cuda :: "env \<Rightarrow> config \<Rightarrow> tally \<Rightarrow> tally" where
  "check_cuda E cfg c =
     (let c1 = found (nl # ''Checking CUDA installation:'') c
      in if \<not> path_exists (machine E) (cuda_path cfg) then
           failed
             (found ''- CUDA > Runtime > Libraries > CUBLAS''
             (found ''- CUDA > Development > Libraries > CUBLAS''
             (found ''- CUDA > Development > Compiler > nvcc''
             (found ''Required components:''
             (found ''https://developer.nvidia.com/cuda-toolkit-archive''
             (found ''Please install CUDA Toolkit from:''
             (found (cross @ '' CUDA not found at: '' @ cuda_path cfg) c1)))))))
         else
           (let c2 = found (tick @ '' Found CUDA installation at: '' @ cuda_path cfg) c1
            in if path_exists (machine E) (nvcc_path E cfg) then
                 found (tick @ '' Found nvcc compiler'') c2
               else
                 failed (found (cross @
                   '' nvcc compiler not found - please install CUDA Development tools'') c2)))"

definition required_packages :: "(string \<times> string) list" where
  "required_packages =
     [(''torch'', ''PyTorch is required for DeepSpeed''),
      (''ninja'', ''Ninja build system is required for compilation''),
      (''psutil'', ''psutil is required for system monitoring'')]"

definition check_torch :: "env \<Rightarrow> string \<Rightarrow> string \<Rightarrow> tally \<Rightarrow> tally" where
  "check_torch E package description c =
     (case import_torch E of
        TorchImported version cuda_available cuda_version \<Rightarrow>
          (let c1 = found (tick @ '' '' @ package @ '' '' @ version @ '' is installed'') c
           in if cuda_available then
                found (''  '' @ tick @ '' CUDA Version: '' @ cuda_version)
                  (found (''  '' @ tick @ '' CUDA is available for PyTorch'') c1)
              else found (''  '' @ warn @ '' CUDA is not available for PyTorch'') c1)
      | TorchMissing \<Rightarrow>
          failed
            (found ''Please install PyTorch manually from: https://pytorch.org/get-started/locally/''
            (found (cross @ '' '' @ package @ '' is missing - '' @ description) c))
      | TorchFails e \<Rightarrow>
          failed (found (cross @ '' Error processing '' @ package @ '': '' @ exc_str e) c))"

definition check_distribution :: "env \<Rightarrow> string \<Rightarrow> tally \<Rightarrow> tally" where
  "check_distribution E package c =
     (case distribution E package of
        DistFound \<Rightarrow> found (tick @ '' '' @ package @ '' is installed'') c
      | DistNotFound \<Rightarrow>
          (let c1 = found (''! '' @ package @ '' is missing - attempting to install...'') c;
               rc = run_pip E [''install'', package]
           in if rc = 0 then found (tick @ '' Successfully installed '' @ package) c1
              else failed (found (cross @ '' Failed to install '' @ package @ '': '' @
                                    exc_str (CalledProcessError rc)) c1))
      | DistFails e \<Rightarrow>
          failed (found (cross @ '' Error processing '' @ package @ '': '' @ exc_str e) c))"

text \<open>The loop over \<open>required_packages\<close>.\<close>

fun check_packages :: "env \<Rightarrow> (string \<times> string) list \<Rightarrow> tally \<Rightarrow> tally" where
  "check_packages E [] c = c"
| "check_packages E ((package, description) # rest) c =
     check_packages E rest
       (if package = ''torch'' then check_torch E package description c
        else check_distribution E package c)"

definition final_status :: "tally \<Rightarrow> tally" where
  "final_status c =
     (if fst c then
        (True, set_progress 100 (set_status ''Ready to install''
                 (log (nl # tick @ '' All prerequisites met!'') (snd c))))
      else
        (False, set_progress 0
           (show_dialog (ShowError ''Prerequisites''
              ''Some prerequisites are missing. Please check the log for details and installation instructions.'')
           (set_status ''Prerequisites check failed''
           (log ''Please install missing components before proceeding''
           (log (nl # cross @ '' Some prerequisites are missing'') (snd c)))))))"

definition check_prerequisites :: "env \<Rightarrow> config \<Rightarrow> state \<Rightarrow> bool \<times> state" where
  "check_prerequisites E cfg st =
     final_status
       (check_packages E required_packages
         (found (nl # ''Checking Python packages:'')
           (check_cuda E cfg
             (check_vs E
               (True, log (nl # ''Checking prerequisites...'')
                        (set_status ''Checking prerequisites...'' (set_progress 0 st)))))))"

section \<open>Auxiliary definitions for the proofs\<close>

text \<open>\<open>graft p m t\<close> is the tree \<open>t\<close> with the node at path \<open>p\<close> replaced by \<open>m\<close>.\<close>

fun graft :: "path \<Rightarrow> node \<Rightarrow> node \<Rightarrow> node" where
  "graft [] m t = m"
| "graft (x # p) m (File c) = File c"
| "graft (x # p) m (Dir es) =
     (case map_of es x of None \<Rightarrow> Dir es | Some c \<Rightarrow> Dir (AList.update x (graft p m c) es))"


text \<open>
  A name that is one piece of a path: not empty, not \<open>.\<close> or \<open>..\<close>, without separator
  or colon. A text ends in a name when what follows its last separator is none of
  the empty text, \<open>.\<close> and \<open>..\<close>.
\<close>

definition proper_name :: "string \<Rightarrow> bool" where
  "proper_name n =
     (n \<noteq> [] \<and> n \<noteq> ''.'' \<and> n \<noteq> ''..'' \<and> list_all (\<lambda>c. \<not> is_sep c \<and> c \<noteq> CHR '':'') n)"

definition ends_in_name :: "string \<Rightarrow> bool" where
  "ends_in_name s =
     (os_path_basename s \<noteq> [] \<and> os_path_basename s \<noteq> ''.'' \<and> os_path_basename s \<noteq> ''..'')"

text \<open>
  The shape of the tree after a reset that succeeded: the parent of the workspace
  lists the workspace last, as an empty directory, and holds the archive directory
  \<open>deepspeed_wheels\<close> (which may be the workspace itself).
\<close>

definition reset_shape :: "config \<Rightarrow> node \<Rightarrow> bool" where
  "reset_shape cfg t =
     (workspace cfg \<noteq> [] \<and>
      (\<exists>es. lookup t (butlast (workspace cfg)) =
               Some (Dir (es @ [(last (workspace cfg), Dir [])])) \<and>
            last (workspace cfg) \<notin> fst ` set es \<and>
            (last (workspace cfg) = ''deepspeed_wheels'' \<or>
             (\<exists>ch. map_of es ''deepspeed_wheels'' = Some (Dir ch)))))"


section \<open>The prerequisite report, as the specification describes it\<close>

text \<open>
  The specification describes the check as a report: each of the three checks
  (toolchain, compute toolkit, runtime packages) yields its findings and its verdict
  from the surroundings alone, whatever the checks before it found. The definitions
  below are written from that description, one check at a time, and are compared
  further down with \<open>check_prerequisites\<close>, which threads one flag and the log through
  all of them.
\<close>

definition vs_missing_lines :: "string list" where
  "vs_missing_lines =
     [cross @ '' No compatible Visual Studio installation found'',
      ''Please install Visual Studio Community Edition from:'',
      ''https://visualstudio.microsoft.com/vs/community/'',
      ''During installation, select '' @ [sq] @ ''Desktop development with C++'' @ [sq]]"

definition vs_ok :: "env \<Rightarrow> bool" where
  "vs_ok E =
     (case find_vs_installation (machine E) of
        Some (vs_name, vs_path, vcvars_path) \<Rightarrow> vcvars_path \<noteq> []
      | None \<Rightarrow> False)"

definition vs_findings :: "env \<Rightarrow> string list" where
  "vs_findings E =
     (case find_vs_installation (machine E) of
        Some (vs_name, vs_path, vcvars_path) \<Rightarrow>
          if vcvars_path \<noteq> [] then [tick @ '' Found '' @ vs_name @ '' at: '' @ vs_path]
          else vs_missing_lines
      | None \<Rightarrow> vs_missing_lines)"

definition cuda_ok :: "env \<Rightarrow> config \<Rightarrow> bool" where
  "cuda_ok E cfg =
     (path_exists (machine E) (cuda_path cfg) \<and> path_exists (machine E) (nvcc_path E cfg))"

definition cuda_findings :: "env \<Rightarrow> config \<Rightarrow> string list" where
  "cuda_findings E cfg =
     (if path_exists (machine E) (cuda_path cfg) then
        [tick @ '' Found CUDA installation at: '' @ cuda_path cfg,
         if path_exists (machine E) (nvcc_path E cfg) then tick @ '' Found nvcc compiler''
         else cross @ '' nvcc compiler not found - please install CUDA Development tools'']
      else
        [cross @ '' CUDA not found at: '' @ cuda_path cfg,
         ''Please install CUDA Toolkit from:'',
         ''https://developer.nvidia.com/cuda-toolkit-archive'',
         ''Required components:'',
         ''- CUDA > Development > Compiler > nvcc'',
         ''- CUDA > Development > Libraries > CUBLAS'',
         ''- CUDA > Runtime > Libraries > CUBLAS''])"

definition package_ok :: "env \<Rightarrow> string \<Rightarrow> bool" where
  "package_ok E package =
     (if package = ''torch'' then
        (case import_torch E of TorchImported v a c \<Rightarrow> True | _ \<Rightarrow> False)
      else
        (case distribution E package of
           DistFound \<Rightarrow> True
         | DistNotFound \<Rightarrow> run_pip E [''install'', package] = 0
         | DistFails e \<Rightarrow> False))"

definition package_findings :: "env \<Rightarrow> string \<times> string \<Rightarrow> string list" where
  "package_findings E pd =
     (case pd of (package, description) \<Rightarrow>
        if package = ''torch'' then
          (case import_torch E of
             TorchImported version cuda_available cuda_version \<Rightarrow>
               (tick @ '' '' @ package @ '' '' @ version @ '' is installed'') #
               (if cuda_available then
                  [''  '' @ tick @ '' CUDA is available for PyTorch'',
                   ''  '' @ tick @ '' CUDA Version: '' @ cuda_version]
                else [''  '' @ warn @ '' CUDA is not available for PyTorch''])
           | TorchMissing \<Rightarrow>
               [cross @ '' '' @ package @ '' is missing - '' @ description,
                ''Please install PyTorch manually from: https://pytorch.org/get-started/locally/'']
           | TorchFails e \<Rightarrow>
               [cross @ '' Error processing '' @ package @ '': '' @ exc_str e])
        else
          (case distribution E package of
             DistFound \<Rightarrow> [tick @ '' '' @ package @ '' is installed'']
           | DistNotFound \<Rightarrow>
               [''! '' @ package @ '' is missing - attempting to install...'',
                if run_pip E [''install'', package] = 0
                then tick @ '' Successfully installed '' @ package
                else cross @ '' Failed to install '' @ package @ '': '' @
                       exc_str (CalledProcessError (run_pip E [''install'', package]))]
           | DistFails e \<Rightarrow>
               [cross @ '' Error processing '' @ package @ '': '' @ exc_str e]))"

definition all_satisfied :: "env \<Rightarrow> config \<Rightarrow> bool" where
  "all_satisfied E cfg =
     (vs_ok E \<and> cuda_ok E cfg \<and>
      package_ok E ''torch'' \<and> package_ok E ''ninja'' \<and> package_ok E ''psutil'')"

definition prerequisite_report :: "env \<Rightarrow> config \<Rightarrow> string list" where
  "prerequisite_report E cfg =
     [nl # ''Checking prerequisites...'', nl # ''Checking Visual Studio installation:''] @
     vs_findings E @
     [nl # ''Checking CUDA installation:''] @
     cuda_findings E cfg @
     [nl # ''Checking Python packages:''] @
     concat (map (package_findings E) required_packages)"

definition closing_lines :: "bool \<Rightarrow> string list" where
  "closing_lines met =
     (if met then [nl # tick @ '' All prerequisites met!'']
      else [nl # cross @ '' Some prerequisites are missing'',
            ''Please install missing components before proceeding''])"

definition logged :: "string list \<Rightarrow> state \<Rightarrow> state" where
  "logged ls st = st \<lparr> log_lines := log_lines st @ ls \<rparr>"


text \<open>
  Two machines to run the discovery on. On \<open>demo_platform\<close> the script of the last
  default root (VS2022 Community) exists and so does the script below the directory
  named by the readable registry keys; on \<open>bare_platform\<close> no script exists at all.
\<close>

definition demo_platform :: platform where
  "demo_platform =
     \<lparr> path_exists = (\<lambda>p.
           p = win [''C:'', ''Program Files'', ''Microsoft Visual Studio'', ''2022'',
                    ''Community'', ''VC'', ''Auxiliary'', ''Build'', ''vcvars64.bat'']
         \<or> p = win [''D:'', ''VS'', ''VC'', ''Auxiliary'', ''Build'', ''vcvars64.bat'']),
       reg_install_dir = (\<lambda>k. if contains k ''WOW6432Node'' then None
                               else Some (win [''D:'', ''VS'', ''Common7''])),
       path_parent = (\<lambda>s. if s = win [''D:'', ''VS'', ''Common7''] then win [''D:'', ''VS'']
                           else ''.''),
       path_join = (\<lambda>a bs. win (a # bs)) \<rparr>"

definition bare_platform :: platform where
  "bare_platform = demo_platform \<lparr> path_exists := (\<lambda>p. False) \<rparr>"

definition demo_toolchain :: toolchain where
  "demo_toolchain =
     (''VS2022 Community'',
      win [''C:'', ''Program Files'', ''Microsoft Visual Studio'', ''2022'', ''Community''],
      win [''C:'', ''Program Files'', ''Microsoft Visual Studio'', ''2022'',
           ''Community'', ''VC'', ''Auxiliary'', ''Build'', ''vcvars64.bat''])"

text \<open>
  A configuration, a starting state and surroundings to run the patcher on. The
  workspace is \<open>work/deepspeed\<close> and holds a file of an earlier run; the download of
  version 0.15.2 answers with an archive whose one top-level directory is
  \<open>DeepSpeed-0.15.2\<close>. The build subprocess is a parameter of \<open>demo_env\<close>.
\<close>

definition demo_config :: config where
  "demo_config =
     \<lparr> version_var = ''0.15.2'',
       cuda_var = ''12.1'',
       install_dir_var = win [''work'', ''deepspeed''],
       build_options =
         [(''DS_BUILD_AIO'', False), (''DS_BUILD_CUTLESS_OPS'', False),
          (''DS_BUILD_EVOFORMER_ATTN'', False), (''DS_BUILD_FP_QUANTIZER'', False),
          (''DS_BUILD_RAGGED_DEVICE_OPS'', False), (''DS_BUILD_SPARSE_ATTN'', False),
          (''DS_BUILD_INFERENCE_CORE_OPS'', False)] \<rparr>"

definition demo_state :: state where
  "demo_state =
     \<lparr> fs = Dir [(''work'', Dir [(''deepspeed'', Dir [(''stale.txt'', File ''old'')])])],
       log_lines = [],
       progress_var = 0,
       status_var = ''Ready to start...'',
       dialogs = [] \<rparr>"

definition demo_source :: entries where
  "demo_source =
     [(''setup.py'', File ''from setuptools import setup''),
      (''deepspeed'', Dir [(''__init__.py'', File '''')])]"

definition demo_env :: "(node \<Rightarrow> string list \<times> int \<times> node) \<Rightarrow> env" where
  "demo_env proc =
     \<lparr> machine = demo_platform,
       python_version = ''3.11.9'',
       torch_version = ''2.3.1'',
       sys_executable = win [''C:'', ''Python311'', ''python.exe''],
       version_info_major = 3,
       version_info_minor = 11,
       confirm_build = True,
       view_cuda_guide = False,
       http_get = (\<lambda>url.
          if url = ''https://github.com/microsoft/DeepSpeed/archive/v0.15.2.zip''
          then Inr ''PK:DeepSpeed-0.15.2'' else Inl (RequestError ''404 Client Error'')),
       unzip = (\<lambda>body.
          if body = ''PK:DeepSpeed-0.15.2'' then Some [(''DeepSpeed-0.15.2'', Dir demo_source)]
          else None),
       build_proc = proc,
       run_pip = (\<lambda>args. 0),
       import_torch = TorchImported ''2.3.1'' True ''12.1'',
       distribution = (\<lambda>package. if package = ''ninja'' then DistFound else DistNotFound),
       cuda_info = (\<lambda>version. ''CUDA_HOME Setup Instructions for CUDA '' @ version) \<rparr>"

text \<open>The same configuration with the directory typed with a separator at its end.\<close>

definition slash_config :: config where
  "slash_config = demo_config \<lparr> install_dir_var := win [''work'', ''deepspeed'', []] \<rparr>"

text \<open>Two build subprocesses: one that fails with return code 1, and one that returns
  0 without writing anything.\<close>

definition failing_build :: "node \<Rightarrow> string list \<times> int \<times> node" where
  "failing_build t = ([''running bdist_wheel'', ''error: command nvcc failed''], 1, t)"

definition silent_build :: "node \<Rightarrow> string list \<times> int \<times> node" where
  "silent_build t = ([''running bdist_wheel''], 0, t)"

text \<open>The state the reset leaves when run on \<open>demo_state\<close>, surroundings whose download
  unpacks to a given list of top-level members, and a state in which a build has left
  two wheel files in \<open>dist\<close>.\<close>

definition reset_state :: state where
  "reset_state =
     demo_state
       \<lparr> fs := Dir [(''work'', Dir [(''deepspeed_wheels'', Dir []), (''deepspeed'', Dir [])])],
         log_lines := [''Cleaning existing build directory...''] \<rparr>"

definition archive_env :: "entries \<Rightarrow> env" where
  "archive_env members = (demo_env silent_build) \<lparr> unzip := (\<lambda>body. Some members) \<rparr>"

definition two_wheels_state :: state where
  "two_wheels_state =
     demo_state
       \<lparr> fs := Dir [(''work'',
                  Dir [(''deepspeed_wheels'', Dir []),
                       (''deepspeed'',
                        Dir [(''setup.py'', File ''from setuptools import setup''),
                             (''dist'',
                              Dir [(''deepspeed-0.15.2-cp311-win_amd64.whl'', File ''wheel A''),
                                   (''deepspeed-0.15.2+stale-cp311-win_amd64.whl'', File ''wheel B'')])])])] \<rparr>"


section \<open>Properties of toolchain discovery\<close>

lemma check_default_paths_find:
  "check_default_paths P ps =
     find (script_exists P) (map (\<lambda>(vs_name, vs_path). (vs_name, vs_path, default_vcvars P vs_path)) ps)"
  by (induction ps) (auto simp: script_exists_def Let_def)

lemma check_registry_find:
  "check_registry P ks =
     find (script_exists P) (concat (map (\<lambda>(reg_path, version).
        (case reg_install_dir P reg_path of
           None \<Rightarrow> []
         | Some install_path \<Rightarrow>
             if install_path = [] then []
             else [(registry_name reg_path version, path_parent P install_path,
                    registry_vcvars P (path_parent P install_path))])) ks))"
  by (induction ks) (auto simp: script_exists_def Let_def split: option.splits)

lemma find_append:
  "find p (xs @ ys) = (case find p xs of Some x \<Rightarrow> Some x | None \<Rightarrow> find p ys)"
  by (induction xs) auto

lemma find_vs_installation_find:
  "find_vs_installation P = find (script_exists P) (candidates P)"
  by (simp add: find_vs_installation_def candidates_def default_candidates_def
      registry_candidates_def check_default_paths_find check_registry_find find_append
      split: option.splits)

text \<open>
  Claim C6. Discovery returns the first candidate of the fixed priority order (the
  well-known install roots in their order, then the registry keys in theirs) whose
  environment script exists: a returned toolchain stands at some position of the
  candidate list, its script exists, and no earlier candidate's script does. When no
  candidate's script exists the result is \<open>None\<close> (the source's triple of \<open>None\<close>s); the
  function is total, a registry key that cannot be read is skipped, not raised.
\<close>

theorem find_vs_installation_first_match:
  "(\<forall>c. find_vs_installation P = Some c \<longrightarrow>
      (\<exists>i < length (candidates P). candidates P ! i = c \<and> script_exists P c \<and>
         (\<forall>j < i. \<not> script_exists P (candidates P ! j)))) \<and>
   ((\<exists>c \<in> set (candidates P). script_exists P c) \<longrightarrow> find_vs_installation P \<noteq> None) \<and>
   ((\<forall>c \<in> set (candidates P). \<not> script_exists P c) \<longrightarrow> find_vs_installation P = None)"
proof (intro conjI allI impI)
  fix c
  assume "find_vs_installation P = Some c"
  then have "find (script_exists P) (candidates P) = Some c"
    by (simp add: find_vs_installation_find)
  then show "\<exists>i < length (candidates P). candidates P ! i = c \<and> script_exists P c \<and>
         (\<forall>j < i. \<not> script_exists P (candidates P ! j))"
    by (auto simp: find_Some_iff)
next
  assume "\<exists>c \<in> set (candidates P). script_exists P c"
  then show "find_vs_installation P \<noteq> None"
    unfolding find_vs_installation_find find_None_iff by blast
next
  assume "\<forall>c \<in> set (candidates P). \<not> script_exists P c"
  then show "find_vs_installation P = None"
    by (simp add: find_vs_installation_find find_None_iff)
qed

lemma find_vs_installation_demo: "find_vs_installation demo_platform = Some demo_toolchain"
  by (simp add: find_vs_installation_def default_vs_paths_def vs_reg_paths_def
      demo_platform_def demo_toolchain_def default_vcvars_def registry_vcvars_def
      registry_name_def bsl_def)

lemma bare_platform_no_script:
  "\<forall>c \<in> set (candidates bare_platform). \<not> script_exists bare_platform c"
  by (simp add: script_exists_def bare_platform_def)

theorem find_vs_installation_first_match_witness:
  "find_vs_installation demo_platform = Some demo_toolchain \<and>
   (\<exists>i < length (candidates demo_platform).
       candidates demo_platform ! i = demo_toolchain \<and>
       script_exists demo_platform demo_toolchain \<and>
       (\<forall>j < i. \<not> script_exists demo_platform (candidates demo_platform ! j))) \<and>
   \<not> (\<exists>c \<in> set (candidates bare_platform). script_exists bare_platform c) \<and>
   find_vs_installation bare_platform = None"
  using find_vs_installation_first_match [of demo_platform]
    find_vs_installation_first_match [of bare_platform]
    find_vs_installation_demo bare_platform_no_script
  by blast

section \<open>Properties of the file-system operations\<close>

lemma lookup_append:
  "lookup t (p @ q) = (case lookup t p of None \<Rightarrow> None | Some n \<Rightarrow> lookup n q)"
proof (induction p arbitrary: t)
  case Nil
  show ?case by simp
next
  case (Cons x p)
  show ?case
  proof (cases t)
    case (File c)
    then show ?thesis by simp
  next
    case (Dir es)
    then show ?thesis using Cons.IH by (simp split: option.splits)
  qed
qed

lemma at_append: "at (p @ q) g t = at p (at q g) t"
proof (induction p arbitrary: t)
  case Nil
  show ?case by simp
next
  case (Cons x p)
  show ?case
  proof (cases t)
    case (File c)
    then show ?thesis by simp
  next
    case (Dir es)
    then show ?thesis using Cons.IH by (simp split: option.splits)
  qed
qed

lemma at_graft:
  "lookup t p = Some n \<Longrightarrow>
   at p g t = (case g n of Inl e \<Rightarrow> Inl e | Inr n' \<Rightarrow> Inr (graft p n' t))"
proof (induction p arbitrary: t)
  case Nil
  then show ?case by (simp split: sum.splits)
next
  case (Cons x p)
  then obtain es c where t: "t = Dir es" and c: "map_of es x = Some c" and n: "lookup c p = Some n"
    by (cases t) (auto split: option.splits)
  show ?case
    by (simp add: t c Cons.IH [OF n] split: sum.splits)
qed

lemma lookup_graft:
  "lookup t p = Some n \<Longrightarrow> lookup (graft p m t) (p @ q) = lookup m q"
proof (induction p arbitrary: t)
  case Nil
  then show ?case by simp
next
  case (Cons x p)
  then obtain es c where t: "t = Dir es" and c: "map_of es x = Some c" and n: "lookup c p = Some n"
    by (cases t) (auto split: option.splits)
  show ?case
    using Cons.IH [OF n] by (simp add: t c AList.update_conv')
qed

lemma lookup_graft_same: "lookup t p = Some n \<Longrightarrow> lookup (graft p m t) p = Some m"
  using lookup_graft [of t p n m "[]"] by simp

lemma graft_graft:
  "lookup t p = Some n \<Longrightarrow> graft p m2 (graft p m1 t) = graft p m2 t"
proof (induction p arbitrary: t)
  case Nil
  then show ?case by simp
next
  case (Cons x p)
  then obtain es c where t: "t = Dir es" and c: "map_of es x = Some c" and n: "lookup c p = Some n"
    by (cases t) (auto split: option.splits)
  show ?case
    using Cons.IH [OF n] by (simp add: t c AList.update_conv')
qed

lemma graft_same: "lookup t p = Some n \<Longrightarrow> graft p n t = t"
proof (induction p arbitrary: t)
  case Nil
  then show ?case by simp
next
  case (Cons x p)
  then obtain es c where t: "t = Dir es" and c: "map_of es x = Some c" and n: "lookup c p = Some n"
    by (cases t) (auto split: option.splits)
  show ?case
    using Cons.IH [OF n] by (simp add: t c AList.update_triv)
qed

lemma makedirs_at:
  "lookup t p = Some n \<Longrightarrow> makedirs ok (p @ q) t = at p (makedirs ok q) t"
proof (induction p arbitrary: t)
  case Nil
  then show ?case by simp
next
  case (Cons x p)
  then obtain es c where t: "t = Dir es" and c: "map_of es x = Some c" and n: "lookup c p = Some n"
    by (cases t) (auto split: option.splits)
  show ?case using Cons.IH [OF n] by (simp add: t c)
qed

lemma map_of_snoc:
  "map_of (es @ [(x, v)]) y =
     (case map_of es y of Some w \<Rightarrow> Some w | None \<Rightarrow> if y = x then Some v else None)"
  by (induction es) auto

lemma lookup_fresh_dirs: "lookup (fresh_dirs p) p = Some (Dir [])"
  by (induction p) auto

lemma makedirs_isdir: "makedirs ok p t = Inr t' \<Longrightarrow> \<exists>es. lookup t' p = Some (Dir es)"
proof (induction ok p t arbitrary: t' rule: makedirs.induct)
  case (4 exist_ok x p es)
  show ?case
  proof (cases "map_of es x")
    case None
    with 4 show ?thesis by (auto simp: lookup_fresh_dirs map_of_snoc simp del: map_of_append)
  next
    case (Some c)
    with 4 show ?thesis by (auto simp: AList.update_conv' split: sum.splits)
  qed
qed (auto split: if_splits)

lemma makedirs_new: "makedirs False p t = Inr t' \<Longrightarrow> lookup t' p = Some (Dir [])"
proof (induction "False" p t arbitrary: t' rule: makedirs.induct)
  case (4 x p es)
  show ?case
  proof (cases "map_of es x")
    case None
    with 4 show ?thesis by (auto simp: lookup_fresh_dirs map_of_snoc simp del: map_of_append)
  next
    case (Some c)
    with 4 show ?thesis by (auto simp: AList.update_conv' split: sum.splits)
  qed
qed auto

lemma makedirs_existing: "lookup t p = Some (Dir es) \<Longrightarrow> makedirs True p t = Inr t"
proof (induction p arbitrary: t)
  case Nil
  then show ?case by simp
next
  case (Cons x p)
  then obtain es' c where t: "t = Dir es'" and c: "map_of es' x = Some c"
    and n: "lookup c p = Some (Dir es)"
    by (cases t) (auto split: option.splits)
  show ?case using Cons.IH [OF n] by (simp add: t c AList.update_triv)
qed

lemma lookup_snoc:
  "lookup t (p @ [x]) = Some n \<longleftrightarrow> (\<exists>es. lookup t p = Some (Dir es) \<and> map_of es x = Some n)"
proof -
  have "lookup m [x] = Some n \<longleftrightarrow> (\<exists>es. m = Dir es \<and> map_of es x = Some n)" for m
    by (cases m) (auto split: option.splits)
  then show ?thesis by (auto simp: lookup_append split: option.splits)
qed

lemma update_new: "k \<notin> fst ` set al \<Longrightarrow> AList.update k v al = al @ [(k, v)]"
  by (induction al) auto

lemma at_under:
  assumes "lookup t ws = Some n"
  shows "at (ws @ p) g t = (case at p g n of Inl e \<Rightarrow> Inl e | Inr n' \<Rightarrow> Inr (graft ws n' t))"
  by (simp add: at_append at_graft [OF assms])

lemma lookup_under: "lookup t ws = Some n \<Longrightarrow> lookup t (ws @ p) = lookup n p"
  by (simp add: lookup_append)

lemma real_dst_under:
  assumes "lookup t ws = Some n" and "p \<noteq> []"
  shows "real_dst t (ws @ p) (ws @ q) = ws @ real_dst n p q"
  using assms by (simp add: real_dst_def os_path_isdir_def lookup_under)

lemma rename_under:
  assumes n: "lookup t ws = Some n" and p: "p \<noteq> []" and q: "q \<noteq> []"
  shows "rename (ws @ p) (ws @ q) m t =
           (case rename p q m n of Inl e \<Rightarrow> Inl e | Inr n' \<Rightarrow> Inr (graft ws n' t))"
proof -
  have bl: "butlast (ws @ p) = ws @ butlast p" "last (ws @ p) = last p"
    "butlast (ws @ q) = ws @ butlast q" "last (ws @ q) = last q"
    using p q by (simp_all add: butlast_append)
  have two: "(case at (ws @ butlast p) g t of Inl e \<Rightarrow> Inl e
              | Inr t1 \<Rightarrow> at (ws @ butlast q) h t1) =
             (case (case at (butlast p) g n of Inl e \<Rightarrow> Inl e
                    | Inr n1 \<Rightarrow> at (butlast q) h n1) of
                Inl e \<Rightarrow> Inl e | Inr n' \<Rightarrow> Inr (graft ws n' t))" for g h
    by (simp add: at_under [OF n] at_under [OF lookup_graft_same [OF n]] graft_graft [OF n]
        split: sum.splits)
  show ?thesis
    unfolding rename_def bl lookup_under [OF n] two
    by (simp split: node.splits option.splits)
qed

lemma move_under:
  assumes n: "lookup t ws = Some n" and p: "p \<noteq> []" and q: "q \<noteq> []"
  shows "move (ws @ p) (ws @ q) t =
           (case move p q n of Inl e \<Rightarrow> Inl e | Inr n' \<Rightarrow> Inr (graft ws n' t))"
proof -
  have rd: "real_dst n p q \<noteq> []" using q by (simp add: real_dst_def)
  have isd: "os_path_isdir t (ws @ q) = os_path_isdir n q"
    by (simp add: os_path_isdir_def lookup_under [OF n])
  have ex: "os_path_exists t (ws @ r) = os_path_exists n r" for r
    by (simp add: os_path_exists_def lookup_under [OF n])
  show ?thesis
    using p rd
    by (auto simp: move_def lookup_under [OF n] real_dst_under [OF n p] isd ex
        rename_under [OF n p rd] graft_same [OF n] split: option.splits)
qed

section \<open>Properties of the path texts\<close>

text \<open>
  A separator cuts the walk in two, a separator at the end changes nothing, and a
  piece without separator is one step.
\<close>

lemma pieces_nonempty: "pieces s \<noteq> []"
  by (induction s) (auto split: list.splits)

lemma pieces_sep: "is_sep c \<Longrightarrow> pieces (x @ c # y) = pieces x @ pieces y"
  by (induction x) (auto simp: pieces_nonempty split: list.splits)

lemma pieces_name: "list_all (\<lambda>c. \<not> is_sep c) n \<Longrightarrow> pieces n = [n]"
  by (induction n) auto

lemma locate_sep: "is_sep c \<Longrightarrow> locate p (x @ c # y) = locate (locate p x) y"
  by (simp add: locate_def pieces_sep)

lemma locate_empty: "locate p [] = p"
  by (simp add: locate_def walk_def)

lemma locate_trailing: "is_sep c \<Longrightarrow> locate p (x @ [c]) = locate p x"
  by (simp add: locate_sep locate_empty)

lemma locate_rstrip: "locate p (rstrip_seps x) = locate p x"
proof (induction x rule: rev_induct)
  case Nil
  show ?case by (simp add: rstrip_seps_def)
next
  case (snoc c x)
  show ?case
  proof (cases "is_sep c")
    case True
    then have "rstrip_seps (x @ [c]) = rstrip_seps x" by (simp add: rstrip_seps_def)
    then show ?thesis using snoc True by (simp add: locate_trailing)
  next
    case False
    then have "rstrip_seps (x @ [c]) = x @ [c]" by (simp add: rstrip_seps_def)
    then show ?thesis by simp
  qed
qed

lemma locate_name:
  "list_all (\<lambda>c. \<not> is_sep c) n \<Longrightarrow> locate p n = walk p n"
  by (simp add: locate_def pieces_name)

lemma splitdrive_prefix:
  assumes "splitdrive s = (d, h @ t)"
  shows "splitdrive (d @ h) = (d, h)"
proof (cases "take 1 (drop 1 s) = '':''")
  case True
  with assms have d: "d = take 2 s" and r: "h @ t = drop 2 s" by (simp_all add: splitdrive_def)
  from True obtain a rest where s: "s = a # CHR '':'' # rest"
    by (cases s; cases "tl s") auto
  with d have "d = [a, CHR '':'']" by simp
  then show ?thesis by (simp add: splitdrive_def)
next
  case False
  with assms have d: "d = []" and r: "s = h @ t" by (simp_all add: splitdrive_def)
  have "take 1 (drop 1 h) \<noteq> '':''"
  proof
    assume "take 1 (drop 1 h) = '':''"
    then obtain a rest where "h = a # CHR '':'' # rest" by (cases h; cases "tl h") auto
    with r False show False by simp
  qed
  then show ?thesis using d by (simp add: splitdrive_def)
qed

lemma head_tail:
  "rev (dropWhile P (rev r)) @ rev (takeWhile P (rev r)) = r"
  by (metis rev_append rev_rev_ident takeWhile_dropWhile_id)

lemma head_shape:
  "rev (dropWhile (\<lambda>c. \<not> is_sep c) (rev r)) = [] \<or>
   (\<exists>h c. rev (dropWhile (\<lambda>c. \<not> is_sep c) (rev r)) = h @ [c] \<and> is_sep c)"
proof (cases "dropWhile (\<lambda>c. \<not> is_sep c) (rev r)")
  case Nil
  then show ?thesis by simp
next
  case (Cons c cs)
  then have "is_sep c" using hd_dropWhile [of "\<lambda>c. \<not> is_sep c" "rev r"] by auto
  with Cons show ?thesis by simp
qed

lemma tail_no_sep: "list_all (\<lambda>c. \<not> is_sep c) (rev (takeWhile (\<lambda>c. \<not> is_sep c) (rev r)))"
  by (auto simp: list_all_iff dest: set_takeWhileD)

text \<open>The place of a text is the place of its directory part, walked one piece further
  by its last piece.\<close>

lemma resolve_split:
  "resolve s = walk (resolve (os_path_dirname s)) (os_path_basename s)"
proof -
  obtain d r where sd: "splitdrive s = (d, r)" by (cases "splitdrive s")
  define tail where "tail = rev (takeWhile (\<lambda>c. \<not> is_sep c) (rev r))"
  define head where "head = rev (dropWhile (\<lambda>c. \<not> is_sep c) (rev r))"
  define h' where "h' = (if rstrip_seps head = [] then head else rstrip_seps head)"
  define b where "b = (if d = [] then [] else [d])"
  have r: "r = head @ tail" by (simp add: head_def tail_def head_tail)
  have ns: "list_all (\<lambda>c. \<not> is_sep c) tail" unfolding tail_def by (rule tail_no_sep)
  have dn: "os_path_dirname s = d @ h'" and bn: "os_path_basename s = tail"
    by (simp_all add: os_path_dirname_def os_path_basename_def os_path_split_def sd Let_def
        head_def tail_def h'_def)
  have "head = rstrip_seps head @ rev (takeWhile is_sep (rev head))"
    using head_tail [of is_sep head] by (simp add: rstrip_seps_def)
  then have "r = rstrip_seps head @ (rev (takeWhile is_sep (rev head)) @ tail)"
    using r by (metis append.assoc)
  then have "\<exists>t. r = h' @ t" using r unfolding h'_def by metis
  then obtain t where "splitdrive s = (d, h' @ t)" using sd by auto
  then have sd': "splitdrive (d @ h') = (d, h')" by (rule splitdrive_prefix)
  have "locate b h' = locate b head"
    unfolding h'_def by (simp add: locate_rstrip)
  then have rd: "resolve (os_path_dirname s) = locate b head"
    by (simp add: resolve_def dn sd' b_def)
  have "head = [] \<or> (\<exists>h c. head = h @ [c] \<and> is_sep c)"
    unfolding head_def by (rule head_shape)
  then have "locate b r = walk (locate b head) tail"
  proof
    assume e: "head = []"
    then have "locate b r = locate b tail" using r by simp
    also have "\<dots> = walk b tail" by (rule locate_name [OF ns])
    finally show ?thesis using e by (simp add: locate_empty)
  next
    assume "\<exists>h c. head = h @ [c] \<and> is_sep c"
    then obtain h c where h: "head = h @ [c]" and c: "is_sep c" by blast
    have "locate b r = locate b (h @ c # tail)" using r h by simp
    also have "\<dots> = locate (locate b h) tail" using c by (rule locate_sep)
    also have "\<dots> = walk (locate b h) tail" by (rule locate_name [OF ns])
    finally show ?thesis using h c by (simp add: locate_trailing)
  qed
  moreover have "resolve s = locate b r" by (simp add: resolve_def sd b_def)
  ultimately show ?thesis by (simp add: rd bn)
qed

text \<open>
  So for a text that ends in a name the directory part leads to the parent of the
  place of the text, while for a text that ends in a separator or in \<open>.\<close> it leads to
  that place itself.
\<close>

lemma resolve_dirname_parent:
  assumes "ends_in_name s"
  shows "resolve s = resolve (os_path_dirname s) @ [os_path_basename s]"
  using assms resolve_split [of s] by (simp add: ends_in_name_def walk_def)

lemma resolve_dirname_same:
  assumes "os_path_basename s = [] \<or> os_path_basename s = ''.''"
  shows "resolve (os_path_dirname s) = resolve s"
  using assms resolve_split [of s] by (auto simp: walk_def)

text \<open>
  The join of a text with a name leads to the entry of that name in the place of the
  text, which is how the model writes every \<open>os.path.join\<close> of the program.
\<close>

lemma walk_name: "proper_name n \<Longrightarrow> walk p n = p @ [n]"
  by (simp add: proper_name_def walk_def)

lemma proper_name_no_sep: "proper_name n \<Longrightarrow> list_all (\<lambda>c. \<not> is_sep c) n"
  by (simp add: proper_name_def list_all_iff)

lemma locate_join:
  assumes "proper_name n"
  shows "locate b (if r \<noteq> [] \<and> \<not> is_sep (last r) then r @ [bsl] @ n else r @ n) =
         locate b r @ [n]"
proof (cases r rule: rev_cases)
  case Nil
  then show ?thesis
    using assms by (simp add: locate_name [OF proper_name_no_sep] walk_name locate_empty)
next
  case (snoc r' c)
  have sep: "is_sep bsl" by (simp add: is_sep_def)
  show ?thesis
  proof (cases "is_sep c")
    case True
    then show ?thesis
      using assms snoc
      by (simp add: locate_sep locate_empty locate_name [OF proper_name_no_sep] walk_name)
  next
    case False
    have "locate b ((r' @ [c]) @ bsl # n) = locate (locate b (r' @ [c])) n"
      using sep by (rule locate_sep)
    then show ?thesis
      using assms snoc False
      by (simp add: locate_name [OF proper_name_no_sep] walk_name)
  qed
qed

lemma splitdrive_join:
  assumes n: "proper_name n" and sd: "splitdrive s = (d, r)"
  shows "splitdrive (os_path_join s n) =
           (d, if r \<noteq> [] \<and> \<not> is_sep (last r) then r @ [bsl] @ n else r @ n)"
proof -
  from n obtain a m where nm: "n = a # m" and a: "a \<noteq> CHR '':''" and m: "take 1 m \<noteq> '':''"
    by (cases n; cases "tl n") (auto simp: proper_name_def)
  have b: "bsl \<noteq> CHR '':''" by (simp add: bsl_def)
  show ?thesis
  proof (cases s)
    case Nil
    then show ?thesis using sd nm a m by (auto simp: splitdrive_def os_path_join_def)
  next
    case (Cons x s')
    show ?thesis
    proof (cases s')
      case Nil
      then show ?thesis using sd nm a m b Cons by (auto simp: splitdrive_def os_path_join_def)
    next
      case (Cons y s'')
      then show ?thesis using sd \<open>s = x # s'\<close>
        by (auto simp: splitdrive_def os_path_join_def split: if_splits)
    qed
  qed
qed

lemma resolve_join:
  assumes "proper_name n"
  shows "resolve (os_path_join s n) = resolve s @ [n]"
proof -
  obtain d r where sd: "splitdrive s = (d, r)" by (cases "splitdrive s")
  show ?thesis
    unfolding resolve_def splitdrive_join [OF assms sd] sd
    using locate_join [OF assms] by simp
qed

section \<open>Properties of the workspace reset\<close>

text \<open>When the text of the installation directory ends in a name, the archive
  directory lies beside the workspace.\<close>

lemma archive_dir_beside:
  assumes "ends_in_name (install_dir_var cfg)"
  shows "archive_dir cfg = butlast (workspace cfg) @ [''deepspeed_wheels'']"
  using resolve_dirname_parent [OF assms] by (simp add: archive_dir_def workspace_def)

text \<open>When it ends in a separator or in \<open>.\<close>, the archive directory lies in the
  workspace.\<close>

lemma archive_dir_inside:
  assumes "os_path_basename (install_dir_var cfg) = [] \<or> os_path_basename (install_dir_var cfg) = ''.''"
  shows "archive_dir cfg = workspace cfg @ [''deepspeed_wheels'']"
  using resolve_dirname_same [OF assms] by (simp add: archive_dir_def workspace_def)

lemma manage_build_body_fs:
  assumes "manage_build_body cfg st = Inr st'"
  obtains t1 t2 where
    "makedirs True (archive_dir cfg) (fs st) = Inr t1"
    "if os_path_exists t1 (workspace cfg) then rmtree (workspace cfg) t1 = Inr t2
     else t2 = t1"
    "makedirs False (workspace cfg) t2 = Inr (fs st')"
  using assms
  by (auto simp: manage_build_body_def clean_build_dir_def fs_step_def pure_step_def log_def
      split: sum.splits if_splits)

text \<open>
  After a reset that succeeded the workspace is an empty directory, whatever the
  text. So when the text ends in a separator or in \<open>.\<close>, no archive directory exists
  after the reset: the one it created went with the old workspace.
\<close>

lemma manage_build_directory_empties:
  assumes "manage_build_directory cfg st = (True, st1)"
  shows "lookup (fs st1) (workspace cfg) = Some (Dir [])"
proof -
  from assms have "manage_build_body cfg st = Inr st1"
    by (auto simp: manage_build_directory_def split: sum.splits)
  then obtain t2 where "makedirs False (workspace cfg) t2 = Inr (fs st1)"
    by (rule manage_build_body_fs)
  then show ?thesis by (rule makedirs_new)
qed

lemma manage_build_directory_loses_archive:
  assumes "os_path_basename (install_dir_var cfg) = [] \<or> os_path_basename (install_dir_var cfg) = ''.''"
    and "manage_build_directory cfg st = (True, st1)"
  shows "\<not> os_path_exists (fs st1) (archive_dir cfg)"
  using manage_build_directory_empties [OF assms(2)]
  by (simp add: archive_dir_inside [OF assms(1)] os_path_exists_def lookup_append)

lemma manage_build_body_shape:
  assumes nm: "ends_in_name (install_dir_var cfg)"
    and run: "manage_build_body cfg st = Inr st'"
  shows "reset_shape cfg (fs st')"
proof -
  let ?ws = "workspace cfg"
  let ?par = "butlast ?ws"
  let ?x = "last ?ws"
  let ?a = "''deepspeed_wheels''"
  from run obtain t1 t2 where
    m1: "makedirs True (archive_dir cfg) (fs st) = Inr t1" and
    cl: "if os_path_exists t1 ?ws then rmtree ?ws t1 = Inr t2 else t2 = t1" and
    m3: "makedirs False ?ws t2 = Inr (fs st')"
    by (rule manage_build_body_fs)
  have ne: "?ws \<noteq> []"
  proof
    assume "?ws = []"
    with cl show False by (simp add: os_path_exists_def rmtree_def)
  qed
  then have ws: "?ws = ?par @ [?x]" by simp
  from makedirs_isdir [OF m1] obtain ch where "lookup t1 (?par @ [?a]) = Some (Dir ch)"
    by (auto simp: archive_dir_beside [OF nm])
  then obtain es1 where par1: "lookup t1 ?par = Some (Dir es1)" and a1: "map_of es1 ?a = Some (Dir ch)"
    by (auto simp: lookup_snoc)
  have par2: "lookup t2 ?par = Some (Dir (AList.delete ?x es1))"
  proof (cases "os_path_exists t1 ?ws")
    case True
    with cl have "rmtree (?par @ [?x]) t1 = Inr t2" using ws by simp
    then have "at ?par (del_tree ?x) t1 = Inr t2" by (simp add: rmtree_def)
    then have "t2 = graft ?par (Dir (AList.delete ?x es1)) t1"
      by (auto simp: at_graft [OF par1] del_tree_def split: sum.splits option.splits node.splits)
    then show ?thesis using lookup_graft_same [OF par1] by simp
  next
    case False
    then have "lookup t1 (?par @ [?x]) = None" using ws by (simp add: os_path_exists_def)
    then have "map_of es1 ?x = None" using par1
      by (simp add: lookup_append split: option.splits)
    then have "AList.delete ?x es1 = es1" by (simp add: map_of_eq_None_iff)
    with False cl par1 show ?thesis by simp
  qed
  have nx: "?x \<notin> fst ` set (AList.delete ?x es1)" by (rule AList.delete_notin_dom)
  then have none: "map_of (AList.delete ?x es1) ?x = None" by (simp add: map_of_eq_None_iff)
  from m3 have "makedirs False (?par @ [?x]) t2 = Inr (fs st')" using ws by simp
  then have "at ?par (makedirs False [?x]) t2 = Inr (fs st')"
    by (simp add: makedirs_at [OF par2])
  then have "fs st' = graft ?par (Dir (AList.delete ?x es1 @ [(?x, Dir [])])) t2"
    by (simp add: at_graft [OF par2] none)
  then have "lookup (fs st') ?par = Some (Dir (AList.delete ?x es1 @ [(?x, Dir [])]))"
    using lookup_graft_same [OF par2] by simp
  moreover have "?x = ?a \<or> (\<exists>ch. map_of (AList.delete ?x es1) ?a = Some (Dir ch))"
    using a1 by (cases "?x = ?a") auto
  ultimately show ?thesis using ne nx unfolding reset_shape_def by blast
qed

lemma delete_snoc_new: "x \<notin> fst ` set es \<Longrightarrow> AList.delete x (es @ [(x, v)]) = es"
  by (induction es) auto

lemma manage_build_body_again:
  assumes nm: "ends_in_name (install_dir_var cfg)"
    and shape: "reset_shape cfg (fs st)"
  shows "manage_build_body cfg st = Inr (log ''Cleaning existing build directory...'' st)"
proof -
  let ?ws = "workspace cfg"
  let ?par = "butlast ?ws"
  let ?x = "last ?ws"
  let ?a = "''deepspeed_wheels''"
  let ?t = "fs st"
  from shape obtain es where ne: "?ws \<noteq> []"
    and par: "lookup ?t ?par = Some (Dir (es @ [(?x, Dir [])]))"
    and nx: "?x \<notin> fst ` set es"
    and a: "?x = ?a \<or> (\<exists>ch. map_of es ?a = Some (Dir ch))"
    unfolding reset_shape_def by blast
  from ne have ws: "?ws = ?par @ [?x]" by simp
  have none: "map_of es ?x = None" using nx by (simp add: map_of_eq_None_iff)
  have wsdir: "lookup ?t (?par @ [?x]) = Some (Dir [])"
    using par none by (simp add: lookup_snoc map_of_snoc del: map_of_append)
  have "\<exists>ch. lookup ?t (?par @ [?a]) = Some (Dir ch)"
    using a par none by (auto simp: lookup_snoc map_of_snoc simp del: map_of_append)
  then have s1: "makedirs True (archive_dir cfg) ?t = Inr ?t"
    by (auto simp: archive_dir_beside [OF nm] intro: makedirs_existing)
  have ex: "os_path_exists ?t ?ws" using wsdir ws by (simp add: os_path_exists_def)
  have "at ?par (del_tree ?x) ?t = Inr (graft ?par (Dir es) ?t)"
    using none nx by (simp add: at_graft [OF par] del_tree_def map_of_snoc delete_snoc_new
        del: map_of_append)
  then have s2: "rmtree ?ws ?t = Inr (graft ?par (Dir es) ?t)"
    using ne by (simp add: rmtree_def)
  have par2: "lookup (graft ?par (Dir es) ?t) ?par = Some (Dir es)"
    by (rule lookup_graft_same [OF par])
  have "makedirs False (?par @ [?x]) (graft ?par (Dir es) ?t) =
        Inr (graft ?par (Dir (es @ [(?x, Dir [])])) (graft ?par (Dir es) ?t))"
    by (simp add: makedirs_at [OF par2] at_graft [OF par2] none)
  then have s3: "makedirs False ?ws (graft ?par (Dir es) ?t) = Inr ?t"
    using ws by (simp add: graft_graft [OF par] graft_same [OF par])
  show ?thesis
    by (simp add: manage_build_body_def clean_build_dir_def fs_step_def pure_step_def
        s1 ex s2 s3 log_def)
qed

lemma reset_shape_workspace:
  assumes nm: "ends_in_name (install_dir_var cfg)"
    and shape: "reset_shape cfg t"
  shows "lookup t (workspace cfg) = Some (Dir [])"
    and "os_path_isdir t (archive_dir cfg)"
proof -
  let ?ws = "workspace cfg"
  let ?par = "butlast ?ws"
  let ?x = "last ?ws"
  let ?a = "''deepspeed_wheels''"
  from shape obtain es where ne: "?ws \<noteq> []"
    and par: "lookup t ?par = Some (Dir (es @ [(?x, Dir [])]))"
    and nx: "?x \<notin> fst ` set es"
    and a: "?x = ?a \<or> (\<exists>ch. map_of es ?a = Some (Dir ch))"
    unfolding reset_shape_def by blast
  from ne have ws: "?ws = ?par @ [?x]" by simp
  have none: "map_of es ?x = None" using nx by (simp add: map_of_eq_None_iff)
  have "lookup t (?par @ [?x]) = Some (Dir [])"
    using par none by (simp add: lookup_snoc map_of_snoc del: map_of_append)
  then show "lookup t ?ws = Some (Dir [])" using ws by simp
  have "\<exists>ch. lookup t (?par @ [?a]) = Some (Dir ch)"
    using a par none by (auto simp: lookup_snoc map_of_snoc simp del: map_of_append)
  then show "os_path_isdir t (archive_dir cfg)"
    by (auto simp: os_path_isdir_def archive_dir_beside [OF nm])
qed

text \<open>
  For a text that ends in a name the reset is idempotent. Whenever one call of
  \<open>manage_build_directory\<close> succeeds, the workspace is an empty directory and the
  archive directory beside it exists; a second call on the state it leaves succeeds
  too and leaves the same tree (it only adds a line to the log), so the same holds
  after the second call.
\<close>

lemma manage_build_directory_twice:
  assumes nm: "ends_in_name (install_dir_var cfg)"
    and run: "manage_build_directory cfg st = (True, st1)"
  shows "manage_build_directory cfg st1 =
            (True, log ''Cleaning existing build directory...'' st1) \<and>
         lookup (fs st1) (workspace cfg) = Some (Dir []) \<and>
         os_path_isdir (fs st1) (archive_dir cfg)"
proof -
  from run have "manage_build_body cfg st = Inr st1"
    by (auto simp: manage_build_directory_def split: sum.splits)
  then have shape: "reset_shape cfg (fs st1)" by (rule manage_build_body_shape [OF nm])
  show ?thesis
    using manage_build_body_again [OF nm shape] reset_shape_workspace [OF nm shape]
    by (simp add: manage_build_directory_def)
qed

text \<open>The places of the two demonstration texts.\<close>

lemma workspace_work_deepspeed:
  "install_dir_var cfg = win [''work'', ''deepspeed''] \<Longrightarrow> workspace cfg = [''work'', ''deepspeed'']"
  "install_dir_var cfg = win [''work'', ''deepspeed''] \<Longrightarrow>
     archive_dir cfg = [''work'', ''deepspeed_wheels'']"
  "install_dir_var cfg = win [''work'', ''deepspeed''] \<Longrightarrow>
     archive_path E cfg = [''work'', ''deepspeed_wheels'', archive_subdir E cfg]"
  by (simp_all add: workspace_def archive_dir_def archive_path_def resolve_def splitdrive_def
      locate_def walk_def os_path_dirname_def os_path_split_def rstrip_seps_def is_sep_def bsl_def)

lemma workspace_work_deepspeed_slash:
  "install_dir_var cfg = win [''work'', ''deepspeed'', []] \<Longrightarrow>
     workspace cfg = [''work'', ''deepspeed'']"
  "install_dir_var cfg = win [''work'', ''deepspeed'', []] \<Longrightarrow>
     archive_dir cfg = [''work'', ''deepspeed'', ''deepspeed_wheels'']"
  by (simp_all add: workspace_def archive_dir_def resolve_def splitdrive_def
      locate_def walk_def os_path_dirname_def os_path_split_def rstrip_seps_def is_sep_def bsl_def)

lemma manage_build_directory_demo:
  "manage_build_directory demo_config demo_state = (True, reset_state)"
  by (simp add: manage_build_directory_def manage_build_body_def clean_build_dir_def
      fs_step_def pure_step_def log_def workspace_work_deepspeed demo_config_def demo_state_def
      reset_state_def os_path_exists_def rmtree_def del_tree_def)

text \<open>
  Claim C9 fails on the code when the text of the installation directory ends in a
  separator (here the directory \<open>deepspeed\<close> in \<open>work\<close>, typed with a backslash at
  its end). Then
  \<open>os.path.dirname\<close> only drops the separator, so the archive directory is created
  inside the workspace and removed with it two lines later. Both resets succeed and
  each leaves an empty workspace, but no archive directory exists after either of
  them. The same workspace named without the separator keeps its archive directory.
\<close>

theorem manage_build_directory_removes_archive:
  "archive_dir slash_config = workspace slash_config @ [''deepspeed_wheels''] \<and>
   fst (manage_build_directory slash_config demo_state) \<and>
   fs (snd (manage_build_directory slash_config demo_state)) =
     Dir [(''work'', Dir [(''deepspeed'', Dir [])])] \<and>
   \<not> os_path_exists (fs (snd (manage_build_directory slash_config demo_state)))
       (archive_dir slash_config) \<and>
   fst (manage_build_directory slash_config
          (snd (manage_build_directory slash_config demo_state))) \<and>
   fs (snd (manage_build_directory slash_config
          (snd (manage_build_directory slash_config demo_state)))) =
     Dir [(''work'', Dir [(''deepspeed'', Dir [])])] \<and>
   workspace demo_config = workspace slash_config \<and>
   os_path_isdir (fs (snd (manage_build_directory demo_config demo_state)))
     (archive_dir demo_config)"
  by (simp add: manage_build_directory_def manage_build_body_def clean_build_dir_def
      fs_step_def pure_step_def log_def workspace_work_deepspeed workspace_work_deepspeed_slash
      slash_config_def demo_config_def demo_state_def
      os_path_exists_def os_path_isdir_def rmtree_def del_tree_def)

section \<open>Properties of download and extraction\<close>

lemma update_append_in:
  "k \<in> fst ` set al \<Longrightarrow> AList.update k v (al @ bl) = AList.update k v al @ bl"
  by (induction al) auto

lemma map_of_in_keys: "map_of al k = Some v \<Longrightarrow> k \<in> fst ` set al"
  by (metis map_of_eq_None_iff option.distinct(1))

text \<open>One pass of the loop that moves the children of directory \<open>D\<close> of the workspace
  up into the workspace.\<close>

lemma move_items_up:
  assumes "lookup (fs st) ws = Some (Dir es)"
    and "map_of es D = Some (Dir rest)"
    and "distinct (map fst rest)"
    and "fst ` set rest \<inter> fst ` set es = {}"
  shows "move_items (ws @ [D]) ws (map fst rest) st =
           Inr (st \<lparr> fs := graft ws (Dir (AList.update D (Dir []) es @ rest)) (fs st) \<rparr>)"
  using assms
proof (induction rest arbitrary: es st)
  case Nil
  then show ?case by (simp add: AList.update_triv graft_same)
next
  case (Cons xn rest')
  obtain x n where xn: "xn = (x, n)" by (cases xn)
  let ?t = "fs st"
  let ?es1 = "AList.update D (Dir rest') es @ [(x, n)]"
  have w: "lookup ?t ws = Some (Dir es)" by (rule Cons.prems(1))
  have D: "map_of es D = Some (Dir ((x, n) # rest'))" using Cons.prems(2) xn by simp
  have Din: "D \<in> fst ` set es" using D by (rule map_of_in_keys)
  have xes: "x \<notin> fst ` set es" using Cons.prems(4) xn by auto
  then have xD: "x \<noteq> D" using Din by auto
  have xnone: "map_of es x = None" using xes by (simp add: map_of_eq_None_iff)
  have xrest: "x \<notin> fst ` set rest'" using Cons.prems(3) xn by auto
  have xup: "x \<notin> fst ` set (AList.update D (Dir rest') es)"
    using xes xD by (simp add: AList.dom_update)
  have mv: "move [D, x] [x] (Dir es) = Inr (Dir ?es1)"
    using xnone xrest xup
    by (simp add: move_def real_dst_def os_path_isdir_def os_path_exists_def D rename_def
        detach_def attach_def update_new split: node.splits)
  have step: "move ((ws @ [D]) @ [x]) (ws @ [x]) ?t = Inr (graft ws (Dir ?es1) ?t)"
    using move_under [OF w, of "[D, x]" "[x]"] mv by simp
  let ?st1 = "st \<lparr> fs := graft ws (Dir ?es1) ?t \<rparr>"
  have w1: "lookup (fs ?st1) ws = Some (Dir ?es1)"
    using lookup_graft_same [OF w] by simp
  have D1: "map_of ?es1 D = Some (Dir rest')"
    using xD by (simp add: map_of_snoc AList.update_conv' del: map_of_append)
  have d1: "distinct (map fst rest')" using Cons.prems(3) by simp
  have disj1: "fst ` set rest' \<inter> fst ` set ?es1 = {}"
    using Cons.prems(3,4) xn Din by (auto simp: AList.dom_update)
  have dom: "D \<in> fst ` set (AList.update D (Dir rest') es)" by (simp add: AList.dom_update)
  have fin: "AList.update D (Dir []) ?es1 @ rest' = AList.update D (Dir []) es @ (x, n) # rest'"
    by (simp add: update_append_in [OF dom])
  have "move_items (ws @ [D]) ws (map fst rest') ?st1 =
          Inr (?st1 \<lparr> fs := graft ws (Dir (AList.update D (Dir []) ?es1 @ rest')) (fs ?st1) \<rparr>)"
    by (rule Cons.IH [OF w1 D1 d1 disj1])
  then have "move_items (ws @ [D]) ws (map fst rest') ?st1 =
          Inr (st \<lparr> fs := graft ws (Dir (AList.update D (Dir []) es @ (x, n) # rest')) ?t \<rparr>)"
    by (simp add: fin graft_graft [OF w])
  then show ?case
    using step by (simp add: xn fs_step_def)
qed

text \<open>
  Claim C8, as amended. Let the workspace be an empty directory (the state a reset
  leaves), the download succeed, and the archive hold exactly one top-level entry: a
  directory named \<open>DeepSpeed-<version>\<close> whose children have distinct names, none of
  them \<open>deepspeed.zip\<close> or \<open>DeepSpeed-<version>\<close>. Then the fetch step completes, the
  workspace directly contains exactly those children, and neither the archive file
  nor the emptied directory remains.
\<close>

theorem fetch_source_moves_contents_up:
  assumes w0: "lookup (fs st) (workspace cfg) = Some (Dir [])"
    and http: "http_get E (download_url cfg) = Inr body"
    and zip: "unzip E body = Some [(''DeepSpeed-'' @ version_var cfg, Dir children)]"
    and dist: "distinct (map fst children)"
    and nz: "''deepspeed.zip'' \<notin> fst ` set children"
    and nd: "''DeepSpeed-'' @ version_var cfg \<notin> fst ` set children"
  shows "\<exists>st'. fetch_source E cfg st = Inr st' \<and>
           lookup (fs st') (workspace cfg) = Some (Dir children) \<and>
           \<not> os_path_exists (fs st') (zip_path cfg) \<and>
           \<not> os_path_exists (fs st') (extracted_dir cfg)"
proof -
  let ?ws = "workspace cfg"
  let ?D = "''DeepSpeed-'' @ version_var cfg"
  let ?z = "''deepspeed.zip''"
  let ?t0 = "fs st"
  let ?es3 = "[(?z, File body), (?D, Dir children)]"
  define t2 where "t2 = graft ?ws (Dir [(?z, File body)]) ?t0"
  define t3 where "t3 = graft ?ws (Dir ?es3) ?t0"
  define t4 where "t4 = graft ?ws (Dir ([(?z, File body), (?D, Dir [])] @ children)) ?t0"
  define t5 where "t5 = graft ?ws (Dir ((?z, File body) # children)) ?t0"
  define t6 where "t6 = graft ?ws (Dir children) ?t0"
  have w2: "lookup t2 ?ws = Some (Dir [(?z, File body)])"
    unfolding t2_def by (rule lookup_graft_same [OF w0])
  have w3: "lookup t3 ?ws = Some (Dir ?es3)"
    unfolding t3_def by (rule lookup_graft_same [OF w0])
  have w4: "lookup t4 ?ws = Some (Dir ([(?z, File body), (?D, Dir [])] @ children))"
    unfolding t4_def by (rule lookup_graft_same [OF w0])
  have w5: "lookup t5 ?ws = Some (Dir ((?z, File body) # children))"
    unfolding t5_def by (rule lookup_graft_same [OF w0])
  have w6: "lookup t6 ?ws = Some (Dir children)"
    unfolding t6_def by (rule lookup_graft_same [OF w0])
  have f1: "makedirs True ?ws ?t0 = Inr ?t0"
    by (rule makedirs_existing [OF w0])
  have f2: "write_file (zip_path cfg) body ?t0 = Inr t2"
    by (simp add: write_file_def zip_path_def at_graft [OF w0] put_file_def t2_def)
  have "unpack_archive (unzip E) (zip_path cfg) ?ws t2 = Inr (graft ?ws (Dir ?es3) t2)"
    by (simp add: unpack_archive_def zip_path_def lookup_under [OF w2] zip
        makedirs_existing [OF w2] at_graft [OF w2] extract_into_def)
  then have f3: "unpack_archive (unzip E) (zip_path cfg) ?ws t2 = Inr t3"
    by (simp add: t2_def t3_def graft_graft [OF w0])
  have f4: "os_listdir t3 (extracted_dir cfg) = Inr (map fst children)"
    by (simp add: os_listdir_def extracted_dir_def lookup_under [OF w3])
  have f5: "move_items (extracted_dir cfg) ?ws (map fst children) s = Inr (s \<lparr> fs := t4 \<rparr>)"
    if s: "fs s = t3" for s
  proof -
    have a: "lookup (fs s) ?ws = Some (Dir ?es3)" using w3 s by simp
    have b: "map_of ?es3 ?D = Some (Dir children)" by simp
    have c: "fst ` set children \<inter> fst ` set ?es3 = {}" using nz nd by auto
    have "move_items (extracted_dir cfg) ?ws (map fst children) s =
            Inr (s \<lparr> fs := graft ?ws (Dir ([(?z, File body), (?D, Dir [])] @ children)) t3 \<rparr>)"
      using move_items_up [OF a b dist c] by (simp add: extracted_dir_def s)
    then show ?thesis
      by (simp add: t3_def t4_def graft_graft [OF w0])
  qed
  have "os_rmdir (extracted_dir cfg) t4 = Inr (graft ?ws (Dir ((?z, File body) # children)) t4)"
    using nd by (simp add: os_rmdir_def extracted_dir_def at_graft [OF w4] del_empty_dir_def)
  then have f6: "os_rmdir (extracted_dir cfg) t4 = Inr t5"
    by (simp add: t4_def t5_def graft_graft [OF w0])
  have "os_remove (zip_path cfg) t5 = Inr (graft ?ws (Dir children) t5)"
    using nz by (simp add: os_remove_def zip_path_def at_graft [OF w5] del_file_def)
  then have f7: "os_remove (zip_path cfg) t5 = Inr t6"
    by (simp add: t5_def t6_def graft_graft [OF w0])
  have nzc: "map_of children ?z = None" using nz by (simp add: map_of_eq_None_iff)
  have ndc: "map_of children ?D = None" using nd by (simp add: map_of_eq_None_iff)
  have run: "fs (the_fetch) = t6 \<and> fetch_source E cfg st = Inr the_fetch"
    if "the_fetch = set_progress 50
          ((log ''Extracting files...'' (set_progress 30
             ((log (''Download URL: '' @ download_url cfg)
                (log (''Downloading DeepSpeed '' @ version_var cfg @ ''...'') st))
              \<lparr> fs := t2 \<rparr>))) \<lparr> fs := t6 \<rparr>)" for the_fetch
    unfolding that
    by (simp add: fetch_source_def download_def move_up_def pure_step_def fs_step_def
        log_def set_progress_def http f1 f2 f3 f4 f5 f6 f7)
  show ?thesis
    using run [OF refl] w6 nzc ndc
    by (auto simp: os_path_exists_def zip_path_def extracted_dir_def lookup_under [OF w6])
qed


theorem fetch_source_moves_contents_up_witness:
  "lookup (fs reset_state) (workspace demo_config) = Some (Dir []) \<and>
   http_get (demo_env silent_build) (download_url demo_config) = Inr ''PK:DeepSpeed-0.15.2'' \<and>
   unzip (demo_env silent_build) ''PK:DeepSpeed-0.15.2'' =
     Some [(''DeepSpeed-'' @ version_var demo_config, Dir demo_source)] \<and>
   distinct (map fst demo_source) \<and>
   ''deepspeed.zip'' \<notin> fst ` set demo_source \<and>
   ''DeepSpeed-'' @ version_var demo_config \<notin> fst ` set demo_source \<and>
   (\<exists>st'. fetch_source (demo_env silent_build) demo_config reset_state = Inr st' \<and>
          lookup (fs st') (workspace demo_config) = Some (Dir demo_source) \<and>
          \<not> os_path_exists (fs st') (zip_path demo_config) \<and>
          \<not> os_path_exists (fs st') (extracted_dir demo_config))"
proof -
  have h1: "lookup (fs reset_state) (workspace demo_config) = Some (Dir [])"
    by (simp add: archive_env_def demo_env_def workspace_work_deepspeed demo_config_def reset_state_def demo_state_def
        demo_source_def)
  have h2: "http_get (demo_env silent_build) (download_url demo_config) =
              Inr ''PK:DeepSpeed-0.15.2''"
    by (simp add: archive_env_def demo_env_def workspace_work_deepspeed demo_config_def reset_state_def demo_state_def
        demo_source_def download_url_def)
  have h3: "unzip (demo_env silent_build) ''PK:DeepSpeed-0.15.2'' =
              Some [(''DeepSpeed-'' @ version_var demo_config, Dir demo_source)]"
    by (simp add: demo_env_def workspace_work_deepspeed demo_config_def)
  have h4: "distinct (map fst demo_source)"
    by (simp add: demo_source_def)
  have h5: "''deepspeed.zip'' \<notin> fst ` set demo_source"
    by (simp add: demo_source_def)
  have h6: "''DeepSpeed-'' @ version_var demo_config \<notin> fst ` set demo_source"
    by (simp add: demo_source_def)
  show ?thesis
    using h1 h2 h3 h4 h5 h6 fetch_source_moves_contents_up [OF h1 h2 h3 h4 h5 h6]
    by blast
qed

text \<open>
  The claim as first stated fails in two ways. An archive whose one top-level entry
  has another name makes the fetch step raise. And when the entry has the expected
  name but a child called \<open>deepspeed.zip\<close>, the step completes, yet that child has
  replaced the downloaded archive and is removed with it: the workspace does not
  contain it.
\<close>

theorem fetch_source_round_trip_fails:
  "raised (fetch_source (archive_env [(''pkg'', Dir demo_source)]) demo_config reset_state)
     = Some FileNotFoundError \<and>
   raised (fetch_source
            (archive_env [(''DeepSpeed-0.15.2'',
               Dir [(''deepspeed.zip'', File ''inner''), (''setup.py'', File ''s'')])])
            demo_config reset_state) = None \<and>
   lookup (fs (outcome_state (fetch_source
            (archive_env [(''DeepSpeed-0.15.2'',
               Dir [(''deepspeed.zip'', File ''inner''), (''setup.py'', File ''s'')])])
            demo_config reset_state)))
     (workspace demo_config) = Some (Dir [(''setup.py'', File ''s'')])"
  by (simp add: fetch_source_def download_def move_up_def pure_step_def fs_step_def log_def
       set_progress_def download_url_def zip_path_def extracted_dir_def write_file_def
       put_file_def unpack_archive_def extract_into_def os_listdir_def move_def real_dst_def
       rename_def detach_def attach_def os_path_isdir_def os_path_exists_def os_rmdir_def
       del_empty_dir_def os_remove_def del_file_def raised_def outcome_state_def
           archive_env_def demo_env_def workspace_work_deepspeed demo_config_def reset_state_def demo_state_def
           demo_source_def)

lemma extract_entry_shape:
  assumes "extract_entry (name, m) es = Inr es'"
  shows "(\<exists>v. es' = AList.update name v es) \<or> (\<exists>v. es' = es @ [(name, v)])"
proof (cases m)
  case (File c)
  with assms show ?thesis by (cases "map_of es name") (auto split: node.splits)
next
  case (Dir ch)
  show ?thesis
  proof (cases "map_of es name")
    case None
    with assms Dir show ?thesis by auto
  next
    case (Some n)
    with assms Dir show ?thesis by (cases n) (auto split: sum.splits)
  qed
qed

lemma extract_entry_keys:
  assumes "extract_entry e es = Inr es'"
  shows "fst ` set es' \<subseteq> insert (fst e) (fst ` set es)"
proof -
  obtain name m where e: "e = (name, m)" by (cases e)
  from assms have "(\<exists>v. es' = AList.update name v es) \<or> (\<exists>v. es' = es @ [(name, v)])"
    unfolding e by (rule extract_entry_shape)
  then show ?thesis
  proof (elim disjE exE)
    fix v
    assume "es' = AList.update name v es"
    then have "fst ` set es' = insert name (fst ` set es)" by (simp add: AList.dom_update)
    then show ?thesis by (simp add: e)
  next
    fix v
    assume "es' = es @ [(name, v)]"
    then have "fst ` set es' = insert name (fst ` set es)" by simp
    then show ?thesis by (simp add: e)
  qed
qed

lemma extract_all_step:
  "extract_all (e # rest) es = Inr es' \<Longrightarrow>
     \<exists>es1. extract_entry e es = Inr es1 \<and> extract_all rest es1 = Inr es'"
  by (cases "extract_entry e es") simp_all

lemma subset_chain: "A \<subseteq> insert x B \<Longrightarrow> C \<subseteq> D \<union> A \<Longrightarrow> C \<subseteq> insert x D \<union> B"
  by blast

lemma extract_all_keys:
  "extract_all ms es = Inr es' \<Longrightarrow> fst ` set es' \<subseteq> fst ` set ms \<union> fst ` set es"
proof (induction ms arbitrary: es)
  case Nil
  then show ?case by simp
next
  case (Cons e rest)
  from extract_all_step [OF Cons.prems] obtain es1 where e1: "extract_entry e es = Inr es1"
    and r: "extract_all rest es1 = Inr es'"
    by blast
  have "fst ` set es' \<subseteq> insert (fst e) (fst ` set rest) \<union> fst ` set es"
    by (rule subset_chain [OF extract_entry_keys [OF e1] Cons.IH [OF r]])
  then show ?case by simp
qed

text \<open>
  Claim C5, as amended. The directory to move up is chosen by its fixed name
  \<open>DeepSpeed-<version>\<close>, never by its place in a listing. When the workspace is an
  empty directory, the download succeeds and the archive has no top-level member of
  that name, the fetch step raises an exception (from the unpacking, or from listing
  the directory that is not there); it does not fall back to any other entry.
\<close>

theorem fetch_source_raises_without_named_directory:
  assumes w0: "lookup (fs st) (workspace cfg) = Some (Dir [])"
    and http: "http_get E (download_url cfg) = Inr body"
    and zip: "unzip E body = Some members"
    and nD: "''DeepSpeed-'' @ version_var cfg \<notin> fst ` set members"
  shows "raised (fetch_source E cfg st) \<noteq> None"
proof -
  let ?ws = "workspace cfg"
  let ?D = "''DeepSpeed-'' @ version_var cfg"
  let ?z = "''deepspeed.zip''"
  let ?t0 = "fs st"
  define t2 where "t2 = graft ?ws (Dir [(?z, File body)]) ?t0"
  have w2: "lookup t2 ?ws = Some (Dir [(?z, File body)])"
    unfolding t2_def by (rule lookup_graft_same [OF w0])
  have f1: "makedirs True ?ws ?t0 = Inr ?t0"
    by (rule makedirs_existing [OF w0])
  have f2: "write_file (zip_path cfg) body ?t0 = Inr t2"
    by (simp add: write_file_def zip_path_def at_graft [OF w0] put_file_def t2_def)
  have listing: "os_listdir t3 (extracted_dir cfg) = Inl FileNotFoundError"
    if u: "unpack_archive (unzip E) (zip_path cfg) ?ws t2 = Inr t3" for t3
  proof (cases "members = []")
    case True
    with u have "t3 = t2"
      by (simp add: unpack_archive_def zip_path_def lookup_under [OF w2] zip)
    then show ?thesis
      by (simp add: os_listdir_def extracted_dir_def lookup_under [OF w2])
  next
    case False
    have "at ?ws (extract_into members) t2 = Inr t3"
      using u False
      by (simp add: unpack_archive_def zip_path_def lookup_under [OF w2] zip
          makedirs_existing [OF w2])
    then have "(case extract_into members (Dir [(?z, File body)]) of
                  Inl e \<Rightarrow> Inl e | Inr n' \<Rightarrow> Inr (graft ?ws n' t2)) = Inr t3"
      by (simp add: at_graft [OF w2])
    then obtain es' where ex: "extract_all members [(?z, File body)] = Inr es'"
      and t3: "t3 = graft ?ws (Dir es') t2"
      by (cases "extract_all members [(?z, File body)]") (simp_all add: extract_into_def)
    have "fst ` set es' \<subseteq> fst ` set members \<union> {?z}"
      using extract_all_keys [OF ex] by simp
    then have "?D \<notin> fst ` set es'" using nD by auto
    then have none: "map_of es' ?D = None" by (simp add: map_of_eq_None_iff)
    have "lookup t3 ?ws = Some (Dir es')"
      unfolding t3 by (rule lookup_graft_same [OF w2])
    then show ?thesis
      using none by (simp add: os_listdir_def extracted_dir_def lookup_under)
  qed
  show ?thesis
  proof (cases "unpack_archive (unzip E) (zip_path cfg) ?ws t2")
    case (Inl e)
    then show ?thesis
      by (simp add: raised_def fetch_source_def download_def pure_step_def fs_step_def
          log_def set_progress_def http f1 f2)
  next
    case (Inr t3)
    then show ?thesis
      using listing [OF Inr]
      by (simp add: raised_def fetch_source_def download_def move_up_def pure_step_def
          fs_step_def log_def set_progress_def http f1 f2)
  qed
qed

theorem fetch_source_raises_without_named_directory_witness:
  "lookup (fs reset_state) (workspace demo_config) = Some (Dir []) \<and>
   http_get (archive_env [(''alpha'', Dir demo_source), (''beta'', Dir [])])
     (download_url demo_config) = Inr ''PK:DeepSpeed-0.15.2'' \<and>
   unzip (archive_env [(''alpha'', Dir demo_source), (''beta'', Dir [])]) ''PK:DeepSpeed-0.15.2'' =
     Some [(''alpha'', Dir demo_source), (''beta'', Dir [])] \<and>
   ''DeepSpeed-'' @ version_var demo_config
      \<notin> fst ` set [(''alpha'', Dir demo_source), (''beta'', Dir [])] \<and>
   raised (fetch_source (archive_env [(''alpha'', Dir demo_source), (''beta'', Dir [])])
             demo_config reset_state) \<noteq> None"
proof -
  let ?E = "archive_env [(''alpha'', Dir demo_source), (''beta'', Dir [])]"
  have h1: "lookup (fs reset_state) (workspace demo_config) = Some (Dir [])"
    by (simp add: archive_env_def demo_env_def workspace_work_deepspeed demo_config_def reset_state_def demo_state_def
        demo_source_def)
  have h2: "http_get ?E (download_url demo_config) = Inr ''PK:DeepSpeed-0.15.2''"
    by (simp add: archive_env_def demo_env_def workspace_work_deepspeed demo_config_def reset_state_def demo_state_def
        demo_source_def download_url_def)
  have h3: "unzip ?E ''PK:DeepSpeed-0.15.2'' =
              Some [(''alpha'', Dir demo_source), (''beta'', Dir [])]"
    by (simp add: archive_env_def)
  have h4: "''DeepSpeed-'' @ version_var demo_config
              \<notin> fst ` set [(''alpha'', Dir demo_source), (''beta'', Dir [])]"
    by simp
  show ?thesis
    using h1 h2 h3 h4 fetch_source_raises_without_named_directory [OF h1 h2 h3 h4]
    by blast
qed

text \<open>
  The claim as first stated fails: with two top-level directories, neither of them
  named \<open>DeepSpeed-0.15.2\<close>, the fetch step raises \<open>FileNotFoundError\<close> and moves
  nothing; and with a directory \<open>alpha\<close> before \<open>DeepSpeed-0.15.2\<close>, it is the content of
  \<open>DeepSpeed-0.15.2\<close> that is moved up, though both the archive file and \<open>alpha\<close> come
  first in the listing of the workspace.
\<close>

theorem fetch_source_no_index_zero_fallback:
  "raised (fetch_source (archive_env [(''alpha'', Dir demo_source), (''beta'', Dir [])])
             demo_config reset_state) = Some FileNotFoundError \<and>
   lookup (fs (outcome_state
             (fetch_source (archive_env [(''alpha'', Dir demo_source), (''beta'', Dir [])])
                demo_config reset_state))) (workspace demo_config) =
     Some (Dir [(''deepspeed.zip'', File ''PK:DeepSpeed-0.15.2''),
                (''alpha'', Dir demo_source), (''beta'', Dir [])]) \<and>
   raised (fetch_source (archive_env [(''alpha'', Dir []), (''DeepSpeed-0.15.2'', Dir demo_source)])
             demo_config reset_state) = None \<and>
   lookup (fs (outcome_state
             (fetch_source (archive_env [(''alpha'', Dir []), (''DeepSpeed-0.15.2'', Dir demo_source)])
                demo_config reset_state))) (workspace demo_config) =
     Some (Dir ((''alpha'', Dir []) # demo_source))"
  by (simp add: fetch_source_def download_def move_up_def pure_step_def fs_step_def log_def
       set_progress_def download_url_def zip_path_def extracted_dir_def write_file_def
       put_file_def unpack_archive_def extract_into_def os_listdir_def move_def real_dst_def
       rename_def detach_def attach_def os_path_isdir_def os_path_exists_def os_rmdir_def
       del_empty_dir_def os_remove_def del_file_def raised_def outcome_state_def
           archive_env_def demo_env_def workspace_work_deepspeed demo_config_def reset_state_def demo_state_def
           demo_source_def)

section \<open>Properties of the archiver\<close>

lemma makedirs_keeps_file:
  "makedirs ok q t = Inr t' \<Longrightarrow> lookup t p = Some (File c) \<Longrightarrow> lookup t' p = Some (File c)"
proof (induction ok q t arbitrary: t' p rule: makedirs.induct)
  case (1 exist_ok es)
  then show ?case by (simp split: if_splits)
next
  case (2 exist_ok c')
  then show ?case by simp
next
  case (3 exist_ok x q c')
  then show ?case by simp
next
  case (4 exist_ok x q es)
  from "4.prems"(2) obtain y p' where p: "p = y # p'" by (cases p) auto
  show ?case
  proof (cases "map_of es x")
    case None
    have "t' = Dir (es @ [(x, fresh_dirs q)])" using "4.prems"(1) None by simp
    moreover obtain c0 where "map_of es y = Some c0" "lookup c0 p' = Some (File c)"
      using "4.prems"(2) p by (cases "map_of es y") simp_all
    ultimately show ?thesis
      using p by (simp add: map_of_snoc del: map_of_append)
  next
    case (Some c1)
    from "4.prems"(1) Some obtain c1' where m: "makedirs exist_ok q c1 = Inr c1'"
      and t': "t' = Dir (AList.update x c1' es)"
      by (cases "makedirs exist_ok q c1") simp_all
    show ?thesis
    proof (cases "y = x")
      case True
      with "4.prems"(2) p Some have "lookup c1 p' = Some (File c)" by simp
      from "4.IH" [OF Some m this] show ?thesis
        using True p t' by (simp add: AList.update_conv')
    next
      case False
      with "4.prems"(2) p show ?thesis
        by (simp add: t' AList.update_conv')
    qed
  qed
qed

text \<open>
  Claim C4, as amended. The archiver does not count the wheel files it finds. Whenever
  the listing of \<open>dist\<close> has at least one wheel, whatever follows it, and the first one
  is a file that the archive directory can take, \<open>archive_wheel\<close> succeeds and the
  archive directory holds a copy of that first file.
\<close>

theorem archive_wheel_takes_first:
  assumes g: "glob_whl (fs st) (wheel_dir cfg) = wheel_file # others"
    and src: "lookup (fs st) (wheel_dir cfg @ [wheel_file]) = Some (File c)"
    and mk: "makedirs True (archive_path E cfg) (fs st) = Inr t1"
    and free: "\<not> os_path_isdir t1 (archive_path E cfg @ [wheel_file])"
  shows "fst (archive_wheel E cfg st) \<and>
         lookup (fs (snd (archive_wheel E cfg st))) (archive_path E cfg @ [wheel_file]) =
           Some (File c)"
proof -
  let ?ap = "archive_path E cfg"
  from makedirs_isdir [OF mk] obtain es where ap: "lookup t1 ?ap = Some (Dir es)" by blast
  have src1: "lookup t1 (wheel_dir cfg @ [wheel_file]) = Some (File c)"
    by (rule makedirs_keeps_file [OF mk src])
  have nodir: "map_of es wheel_file \<noteq> Some (Dir ch)" for ch
    using free ap by (simp add: os_path_isdir_def lookup_under split: option.splits node.splits)
  have isd: "os_path_isdir t1 ?ap" using ap by (simp add: os_path_isdir_def)
  have "put_file wheel_file c (Dir es) = Inr (Dir (AList.update wheel_file (File c) es))"
  proof (cases "map_of es wheel_file")
    case None
    then show ?thesis by (simp add: put_file_def)
  next
    case (Some n)
    with nodir show ?thesis by (cases n) (auto simp: put_file_def)
  qed
  then have "write_file (?ap @ [wheel_file]) c t1 =
          Inr (graft ?ap (Dir (AList.update wheel_file (File c) es)) t1)"
    by (simp add: write_file_def at_graft [OF ap])
  then have cp: "copy2 (wheel_dir cfg @ [wheel_file]) ?ap t1 =
          Inr (graft ?ap (Dir (AList.update wheel_file (File c) es)) t1)"
    by (simp add: copy2_def src1 isd)
  have res: "lookup (graft ?ap (Dir (AList.update wheel_file (File c) es)) t1)
               (?ap @ [wheel_file]) = Some (File c)"
    by (simp add: lookup_graft [OF ap] AList.update_conv')
  show ?thesis
    using res by (simp add: archive_wheel_def g fs_step_def pure_step_def mk cp log_def)
qed

lemma show_nat_3_11: "show_nat 3 = ''3''" "show_nat 11 = ''11''"
  by code_simp+

theorem archive_wheel_takes_first_witness:
  "glob_whl (fs two_wheels_state) (wheel_dir demo_config) =
     [''deepspeed-0.15.2-cp311-win_amd64.whl'', ''deepspeed-0.15.2+stale-cp311-win_amd64.whl''] \<and>
   lookup (fs two_wheels_state)
     (wheel_dir demo_config @ [''deepspeed-0.15.2-cp311-win_amd64.whl'']) =
     Some (File ''wheel A'') \<and>
   fst (archive_wheel (demo_env silent_build) demo_config two_wheels_state) \<and>
   lookup (fs (snd (archive_wheel (demo_env silent_build) demo_config two_wheels_state)))
     (archive_path (demo_env silent_build) demo_config @
        [''deepspeed-0.15.2-cp311-win_amd64.whl'']) = Some (File ''wheel A'')"
proof -
  let ?w = "''deepspeed-0.15.2-cp311-win_amd64.whl''"
  let ?t1 = "Dir [(''work'',
                  Dir [(''deepspeed_wheels'', Dir [(''deepspeed_0.15.2_cuda12.1_py311'', Dir [])]),
                       (''deepspeed'',
                        Dir [(''setup.py'', File ''from setuptools import setup''),
                             (''dist'',
                              Dir [(''deepspeed-0.15.2-cp311-win_amd64.whl'', File ''wheel A''),
                                   (''deepspeed-0.15.2+stale-cp311-win_amd64.whl'', File ''wheel B'')])])])]"
  have g: "glob_whl (fs two_wheels_state) (wheel_dir demo_config) =
             [?w, ''deepspeed-0.15.2+stale-cp311-win_amd64.whl'']"
    by (simp add: glob_whl_def wheel_dir_def ends_with_def workspace_work_deepspeed demo_config_def two_wheels_state_def
        demo_state_def)
  have src: "lookup (fs two_wheels_state) (wheel_dir demo_config @ [?w]) = Some (File ''wheel A'')"
    by (simp add: wheel_dir_def workspace_work_deepspeed demo_config_def two_wheels_state_def demo_state_def)
  have mk: "makedirs True (archive_path (demo_env silent_build) demo_config)
              (fs two_wheels_state) = Inr ?t1"
    by (simp add: archive_subdir_def demo_env_def workspace_work_deepspeed demo_config_def
        two_wheels_state_def demo_state_def show_nat_3_11)
  have free: "\<not> os_path_isdir ?t1 (archive_path (demo_env silent_build) demo_config @ [?w])"
    by (simp add: os_path_isdir_def archive_subdir_def demo_env_def
        workspace_work_deepspeed demo_config_def show_nat_3_11)
  show ?thesis
    using g src archive_wheel_takes_first [OF g src mk free] by simp
qed

text \<open>
  The claim as first stated fails: with two wheel files in \<open>dist\<close> the archiver
  reports success and archives the first of them, and only that one.
\<close>

theorem archive_wheel_two_wheels_accepted:
  "glob_whl (fs two_wheels_state) (wheel_dir demo_config) =
     [''deepspeed-0.15.2-cp311-win_amd64.whl'', ''deepspeed-0.15.2+stale-cp311-win_amd64.whl''] \<and>
   fst (archive_wheel (demo_env silent_build) demo_config two_wheels_state) \<and>
   lookup (fs (snd (archive_wheel (demo_env silent_build) demo_config two_wheels_state)))
     [''work'', ''deepspeed_wheels'', ''deepspeed_0.15.2_cuda12.1_py311''] =
     Some (Dir [(''deepspeed-0.15.2-cp311-win_amd64.whl'', File ''wheel A'')])"
  by (simp add: archive_wheel_def glob_whl_def wheel_dir_def archive_subdir_def
       ends_with_def fs_step_def pure_step_def log_def copy2_def write_file_def put_file_def
       os_path_isdir_def demo_env_def workspace_work_deepspeed demo_config_def two_wheels_state_def demo_state_def
      show_nat_3_11)

section \<open>Properties of the build script and the build subprocess\<close>

text \<open>
  Claim C1 fails on the code. The window offers seven check boxes, kept in
  \<open>build_options\<close>, but \<open>run_build_process\<close> never reads them: the script is the same
  for every choice of options, and each of its seven \<open>set DS_BUILD_...\<close> lines ends in
  \<open>0\<close>. With \<open>DS_BUILD_AIO\<close> ticked the script still holds \<open>set DS_BUILD_AIO=0\<close> and
  no line \<open>set DS_BUILD_AIO=1\<close>. Two of the names written to the script
  (\<open>DS_BUILD_CUTLASS_OPS\<close>, \<open>DS_BUILD_TRANSFORMER_INFERENCE\<close>) are not even names of
  check boxes (\<open>DS_BUILD_CUTLESS_OPS\<close>, \<open>DS_BUILD_INFERENCE_CORE_OPS\<close>).
\<close>

theorem build_script_ignores_build_options:
  "build_script_text E (cfg \<lparr> build_options := options \<rparr>) vcvars_path =
     build_script_text E cfg vcvars_path \<and>
   ''set DS_BUILD_AIO=0''
     \<in> set (build_script_lines E (cfg \<lparr> build_options := [(''DS_BUILD_AIO'', True)] \<rparr>) vcvars_path) \<and>
   ''set DS_BUILD_AIO=1''
     \<notin> set (build_script_lines E (cfg \<lparr> build_options := [(''DS_BUILD_AIO'', True)] \<rparr>) vcvars_path) \<and>
   ''set DS_BUILD_CUTLESS_OPS=0'' \<notin> set (build_script_lines E cfg vcvars_path) \<and>
   ''set DS_BUILD_INFERENCE_CORE_OPS=0'' \<notin> set (build_script_lines E cfg vcvars_path)"
  by (simp add: build_script_text_def build_script_lines_def cuda_path_def)

text \<open>
  Claim C2 fails on the code. When the subprocess returns a code other than zero,
  \<open>run_build_process\<close> raises before it reaches the removal of the script, and its
  handler only logs: the result is \<open>False\<close> and \<open>run_build.bat\<close> is still in the
  workspace.
\<close>

theorem run_build_process_failure_leaves_script:
  "\<not> fst (run_build_process (demo_env failing_build) demo_config demo_state) \<and>
   os_path_exists (fs (snd (run_build_process (demo_env failing_build) demo_config demo_state)))
     (build_script_path demo_config) \<and>
   last (log_lines (snd (run_build_process (demo_env failing_build) demo_config demo_state))) =
     ''Build process error: Build failed''"
  by (simp add: run_build_process_def run_build_body_def find_vs_installation_demo
      demo_toolchain_def demo_env_def workspace_work_deepspeed demo_config_def demo_state_def failing_build_def
      pure_step_def fs_step_def log_def write_file_def put_file_def build_script_path_def
      run_subprocess_def os_path_exists_def)

text \<open>On success the script is removed: the removal is there, on one path only.\<close>

lemma run_build_process_success_removes_script:
  "fst (run_build_process (demo_env silent_build) demo_config demo_state) \<and>
   \<not> os_path_exists (fs (snd (run_build_process (demo_env silent_build) demo_config demo_state)))
     (build_script_path demo_config)"
  by (simp add: run_build_process_def run_build_body_def find_vs_installation_demo
      demo_toolchain_def demo_env_def workspace_work_deepspeed demo_config_def demo_state_def silent_build_def
      pure_step_def fs_step_def log_def write_file_def put_file_def build_script_path_def
      run_subprocess_def os_path_exists_def remove_quietly_def os_remove_def del_file_def)

text \<open>
  Claim C3 fails on the code in \<open>build_only\<close>. When the subprocess returns 0 and
  leaves no wheel in \<open>dist\<close>, \<open>archive_wheel\<close> returns \<open>False\<close>, \<open>build_only\<close> logs a
  warning and goes on to report success. The sibling entry point
  \<open>start_installation\<close> looks for the wheel again and fails the run with
  \<open>No wheel file found after build\<close>.
\<close>

theorem build_only_reports_success_without_wheel:
  "glob_whl (fs (build_only (demo_env silent_build) demo_config demo_state))
     (wheel_dir demo_config) = [] \<and>
   status_var (build_only (demo_env silent_build) demo_config demo_state) = ''Build complete!'' \<and>
   last (dialogs (build_only (demo_env silent_build) demo_config demo_state)) =
     ShowInfo ''Success'' ''DeepSpeed has been successfully built!'' \<and>
   status_var (start_installation (demo_env silent_build) demo_config demo_state) =
     ''Installation failed!'' \<and>
   last (dialogs (start_installation (demo_env silent_build) demo_config demo_state)) =
     ShowError ''Error'' ''Installation failed: No wheel file found after build''"
  by (simp add: build_only_def build_only_body_def start_installation_def start_installation_body_def
       prepare_step_def run_build_step_def archive_step_def install_built_wheel_def
       build_success_def install_success_def show_dialog_def set_status_def set_progress_def
       log_def pure_step_def fs_step_def manage_build_directory_def manage_build_body_def
       clean_build_dir_def rmtree_def del_tree_def run_build_process_def
       run_build_body_def run_subprocess_def remove_quietly_def build_script_path_def
       write_file_def put_file_def os_remove_def del_file_def archive_wheel_def glob_whl_def
       wheel_dir_def fetch_source_def download_def move_up_def download_url_def zip_path_def
       extracted_dir_def unpack_archive_def extract_into_def os_listdir_def move_def
       real_dst_def rename_def detach_def attach_def os_path_isdir_def os_path_exists_def
       os_rmdir_def del_empty_dir_def find_vs_installation_demo demo_toolchain_def demo_env_def
      workspace_work_deepspeed demo_config_def demo_state_def silent_build_def demo_source_def)


section \<open>Properties of the entry points\<close>

text \<open>
  Claim C10. With an empty version, \<open>build_only\<close> and \<open>start_installation\<close> show the
  error dialog and return at once: no stage runs, so the tree of files (the workspace
  and the archive directory with it), the log, the progress bar and the status line
  are what they were.
\<close>

theorem empty_version_starts_nothing:
  assumes "version_var cfg = []"
  shows "build_only E cfg st =
           st \<lparr> dialogs := dialogs st @ [ShowError ''Error'' ''Please select a DeepSpeed version''] \<rparr> \<and>
         start_installation E cfg st =
           st \<lparr> dialogs := dialogs st @ [ShowError ''Error'' ''Please select a DeepSpeed version''] \<rparr> \<and>
         fs (build_only E cfg st) = fs st \<and>
         log_lines (build_only E cfg st) = log_lines st \<and>
         progress_var (build_only E cfg st) = progress_var st \<and>
         status_var (build_only E cfg st) = status_var st \<and>
         fs (start_installation E cfg st) = fs st \<and>
         log_lines (start_installation E cfg st) = log_lines st \<and>
         progress_var (start_installation E cfg st) = progress_var st \<and>
         status_var (start_installation E cfg st) = status_var st"
  using assms by (simp add: build_only_def start_installation_def show_dialog_def)

theorem empty_version_starts_nothing_witness:
  "version_var (demo_config \<lparr> version_var := [] \<rparr>) = [] \<and>
   build_only (demo_env silent_build) (demo_config \<lparr> version_var := [] \<rparr>) demo_state =
     demo_state \<lparr> dialogs := [ShowError ''Error'' ''Please select a DeepSpeed version''] \<rparr> \<and>
   start_installation (demo_env silent_build) (demo_config \<lparr> version_var := [] \<rparr>) demo_state =
     demo_state \<lparr> dialogs := [ShowError ''Error'' ''Please select a DeepSpeed version''] \<rparr> \<and>
   fs (build_only (demo_env silent_build) (demo_config \<lparr> version_var := [] \<rparr>) demo_state) =
     fs demo_state"
proof -
  have h: "version_var (demo_config \<lparr> version_var := [] \<rparr>) = []" by simp
  have d: "dialogs demo_state = []" by (simp add: demo_state_def)
  show ?thesis
    using h empty_version_starts_nothing
              [OF h, of "demo_env silent_build" demo_state]
    by (simp add: d)
qed


section \<open>Properties of the prerequisite check\<close>

lemma check_vs_report:
  "check_vs E c = (fst c \<and> vs_ok E,
      logged ((nl # ''Checking Visual Studio installation:'') # vs_findings E) (snd c))"
  by (cases c)
     (auto simp: check_vs_def found_def failed_def log_def logged_def vs_ok_def vs_findings_def
        vs_missing_lines_def Let_def split: option.splits)

lemma check_cuda_report:
  "check_cuda E cfg c = (fst c \<and> cuda_ok E cfg,
      logged ((nl # ''Checking CUDA installation:'') # cuda_findings E cfg) (snd c))"
  by (cases c)
     (auto simp: check_cuda_def found_def failed_def log_def logged_def cuda_ok_def
        cuda_findings_def Let_def)

lemma check_package_report:
  "(if package = ''torch'' then check_torch E package description c
    else check_distribution E package c) =
   (fst c \<and> package_ok E package, logged (package_findings E (package, description)) (snd c))"
  by (cases c)
     (auto simp: check_torch_def check_distribution_def found_def failed_def log_def logged_def
        package_ok_def package_findings_def Let_def
        split: torch_status.splits dist_status.splits)

lemma logged_logged: "logged ys (logged xs st) = logged (xs @ ys) st"
  by (simp add: logged_def)

lemma check_packages_report:
  "check_packages E ps c =
     (fst c \<and> list_all (\<lambda>pd. package_ok E (fst pd)) ps,
      logged (concat (map (package_findings E) ps)) (snd c))"
proof (induction ps arbitrary: c)
  case Nil
  then show ?case by (simp add: logged_def)
next
  case (Cons pd ps)
  obtain package description where pd: "pd = (package, description)" by (cases pd)
  show ?case
    unfolding pd check_packages.simps check_package_report Cons.IH
    by (auto simp: logged_logged)
qed

text \<open>
  Claim C7. \<open>check_prerequisites\<close> always returns: it raises nothing, and its result
  is the conjunction of the verdicts of all checks, so it is \<open>False\<close> as soon as one
  check fails. Its log is the full report: the findings of the toolchain check, of the
  toolkit check and of every package check, each from the surroundings alone and each
  non-empty, whatever the earlier checks found. It leaves the tree of files alone. In
  particular, when the toolkit directory is absent the result is \<open>False\<close>, the report
  names the missing path, and the toolchain and package findings are in the report all
  the same.
\<close>

theorem check_prerequisites_reports_everything:
  "fst (check_prerequisites E cfg st) = all_satisfied E cfg \<and>
   log_lines (snd (check_prerequisites E cfg st)) =
     log_lines st @ prerequisite_report E cfg @ closing_lines (all_satisfied E cfg) \<and>
   fs (snd (check_prerequisites E cfg st)) = fs st \<and>
   vs_findings E \<noteq> [] \<and> cuda_findings E cfg \<noteq> [] \<and>
   package_findings E (''torch'', d1) \<noteq> [] \<and> package_findings E (''ninja'', d2) \<noteq> [] \<and>
   package_findings E (''psutil'', d3) \<noteq> [] \<and>
   (\<not> path_exists (machine E) (cuda_path cfg) \<longrightarrow>
      \<not> fst (check_prerequisites E cfg st) \<and>
      (cross @ '' CUDA not found at: '' @ cuda_path cfg) \<in> set (prerequisite_report E cfg))"
proof -
  have run: "check_prerequisites E cfg st =
     final_status (all_satisfied E cfg,
       logged (prerequisite_report E cfg) (set_status ''Checking prerequisites...'' (set_progress 0 st)))"
    by (simp add: check_prerequisites_def check_vs_report check_cuda_report check_packages_report
        found_def log_def logged_def all_satisfied_def prerequisite_report_def
        required_packages_def set_status_def set_progress_def)
  have a: "fst (check_prerequisites E cfg st) = all_satisfied E cfg"
    by (simp add: run final_status_def)
  have b: "log_lines (snd (check_prerequisites E cfg st)) =
     log_lines st @ prerequisite_report E cfg @ closing_lines (all_satisfied E cfg)"
    by (simp add: run final_status_def closing_lines_def logged_def log_def set_status_def
        set_progress_def show_dialog_def)
  have c: "fs (snd (check_prerequisites E cfg st)) = fs st"
    by (simp add: run final_status_def logged_def log_def set_status_def
        set_progress_def show_dialog_def)
  have d: "vs_findings E \<noteq> []"
    by (simp add: vs_findings_def vs_missing_lines_def split: option.splits)
  have e: "cuda_findings E cfg \<noteq> []"
    by (simp add: cuda_findings_def)
  have f: "package_findings E (p, d) \<noteq> []" for p d
    by (simp add: package_findings_def split: torch_status.splits dist_status.splits)
  have g: "\<not> path_exists (machine E) (cuda_path cfg) \<longrightarrow>
      \<not> fst (check_prerequisites E cfg st) \<and>
      (cross @ '' CUDA not found at: '' @ cuda_path cfg) \<in> set (prerequisite_report E cfg)"
    by (simp add: a all_satisfied_def cuda_ok_def prerequisite_report_def cuda_findings_def)
  show ?thesis using a b c d e f g by blast
qed

theorem check_prerequisites_reports_everything_witness:
  "\<not> path_exists (machine (demo_env silent_build)) (cuda_path demo_config) \<and>
   \<not> fst (check_prerequisites (demo_env silent_build) demo_config demo_state) \<and>
   (cross @ '' CUDA not found at: '' @ cuda_path demo_config)
     \<in> set (prerequisite_report (demo_env silent_build) demo_config)"
proof -
  have h: "\<not> path_exists (machine (demo_env silent_build)) (cuda_path demo_config)"
    by (simp add: demo_env_def demo_platform_def cuda_path_def demo_config_def bsl_def)
  show ?thesis
    using h check_prerequisites_reports_everything
            [of "demo_env silent_build" demo_config demo_state]
    by blast
qed

end
